theory Spec2Isabelle
  imports Main "HOL-Library.AList" "HOL-Library.Char_ord" "HOL-Library.List_Lexorder"
begin

chapter \<open>A shallow embedding of the sandbox synchronisation core\<close>

text \<open>
  The development has two parts. The first part embeds the TypeScript sources as HOL
  functions: the in-memory sandbox adapter (\<open>SandpackAdapter\<close>), the poll-based file
  watcher (\<open>SandpackFileWatcher\<close>), the session manager (\<open>SessionManager.start\<close>), the
  snapshot operations of \<open>SandboxManager\<close> and the \<open>UndoRedoManager\<close>. The second part
  states and proves the properties.

  Conventions. A JavaScript object used as a dictionary is the association list of its
  own properties in property order; \<open>AList.delete\<close> is \<open>delete obj[key]\<close>, \<open>map_of\<close> is
  the lookup among the own properties (\<open>None\<close> standing for \<open>undefined\<close>), and the
  lookup and the assignment that go through \<open>Object.prototype\<close> are \<open>getProperty\<close> and
  \<open>setProperty\<close>. Strings are lists of 8-bit characters. Mutation is explicit state
  passing, a \<open>throw\<close> is a result of its own, and everything the environment
  decides (the outcome of a connection attempt, the hash and time of a new change, the
  current time, the patches a diff returns, what the JSON functions return) is an explicit
  argument.
\<close>

section \<open>Part I: the model\<close>

subsection \<open>JavaScript strings\<close>

type_synonym fileMap = "(string \<times> string) list"

text \<open>\<open>s.startsWith(p)\<close> and \<open>s.endsWith(p)\<close>.\<close>

definition startsWith :: "string \<Rightarrow> string \<Rightarrow> bool" where
  "startsWith s p = (take (length p) s = p)"

definition endsWith :: "string \<Rightarrow> string \<Rightarrow> bool" where
  "endsWith s p = (length p \<le> length s \<and> drop (length s - length p) s = p)"

text \<open>\<open>s.lastIndexOf(c)\<close> for a one-character needle: the index of the last occurrence,
  \<open>-1\<close> when there is none.\<close>

definition lastIndexOf :: "string \<Rightarrow> char \<Rightarrow> int" where
  "lastIndexOf s c =
     (if c \<in> set s then int (length s) - 1 - int (length (takeWhile (\<lambda>x. x \<noteq> c) (rev s)))
      else - 1)"

text \<open>\<open>s.slice(start)\<close>: a negative start counts from the end and is clamped at 0.\<close>

definition slice :: "string \<Rightarrow> int \<Rightarrow> string" where
  "slice s start = (if start < 0 then drop (nat (int (length s) + start)) s else drop (nat start) s)"

text \<open>\<open>toLowerCase\<close> on 8-bit characters: the letters \<open>A\<close> to \<open>Z\<close> and the capital letters of
  the upper half of the alphabet (\<open>0xC0\<close> to \<open>0xDE\<close> without the multiplication sign
  \<open>0xD7\<close>) are moved up by \<open>0x20\<close>; every other character is kept.\<close>

definition upperCaseLetters :: string where
  "upperCaseLetters =
     ''ABCDEFGHIJKLMNOPQRSTUVWXYZ'' @
       [CHR 0xC0, CHR 0xC1, CHR 0xC2, CHR 0xC3, CHR 0xC4, CHR 0xC5, CHR 0xC6, CHR 0xC7,
        CHR 0xC8, CHR 0xC9, CHR 0xCA, CHR 0xCB, CHR 0xCC, CHR 0xCD, CHR 0xCE, CHR 0xCF,
        CHR 0xD0, CHR 0xD1, CHR 0xD2, CHR 0xD3, CHR 0xD4, CHR 0xD5, CHR 0xD6, CHR 0xD8,
        CHR 0xD9, CHR 0xDA, CHR 0xDB, CHR 0xDC, CHR 0xDD, CHR 0xDE]"

definition lowerCaseLetters :: string where
  "lowerCaseLetters =
     ''abcdefghijklmnopqrstuvwxyz'' @
       [CHR 0xE0, CHR 0xE1, CHR 0xE2, CHR 0xE3, CHR 0xE4, CHR 0xE5, CHR 0xE6, CHR 0xE7,
        CHR 0xE8, CHR 0xE9, CHR 0xEA, CHR 0xEB, CHR 0xEC, CHR 0xED, CHR 0xEE, CHR 0xEF,
        CHR 0xF0, CHR 0xF1, CHR 0xF2, CHR 0xF3, CHR 0xF4, CHR 0xF5, CHR 0xF6, CHR 0xF8,
        CHR 0xF9, CHR 0xFA, CHR 0xFB, CHR 0xFC, CHR 0xFD, CHR 0xFE]"

definition toLowerChar :: "char \<Rightarrow> char" where
  "toLowerChar c =
     (case map_of (zip upperCaseLetters lowerCaseLetters) c of
        Some l \<Rightarrow> l
      | None \<Rightarrow> c)"

definition toLowerCase :: "string \<Rightarrow> string" where
  "toLowerCase s = map toLowerChar s"

text \<open>The whitespace class of regular expressions, which is also what \<open>trim\<close> removes: among the 8-bit characters these are tab, line feed, vertical tab, form feed,
  carriage return, space and the no-break space \<open>0xA0\<close>. The dot of a regular
  expression matches every character but the line terminators.\<close>

definition isSpace :: "char \<Rightarrow> bool" where
  "isSpace c = (c \<in> set [CHR 0x09, CHR 0x0A, CHR 0x0B, CHR 0x0C, CHR 0x0D, CHR 0x20, CHR 0xA0])"



text \<open>Splitting on runs of whitespace and dropping the empty parts
  (\<open>split\<close> followed by \<open>filter(Boolean)\<close>): the maximal runs of non-space characters.
  On a trimmed, non-empty string the split alone gives the same list.\<close>

fun splitFrom :: "string \<Rightarrow> string \<Rightarrow> string list" where
  "splitFrom acc [] = (if acc = [] then [] else [acc])"
| "splitFrom acc (c # cs) =
     (if isSpace c then (if acc = [] then splitFrom [] cs else acc # splitFrom [] cs)
      else splitFrom (acc @ [c]) cs)"

definition splitWhitespace :: "string \<Rightarrow> string list" where
  "splitWhitespace s = splitFrom [] s"

fun joinWith :: "string \<Rightarrow> string list \<Rightarrow> string" where
  "joinWith sep [] = []"
| "joinWith sep [x] = x"
| "joinWith sep (x # y # ys) = x @ sep @ joinWith sep (y # ys)"

definition newline :: string where
  "newline = [CHR 0x0A]"

text \<open>A number in a template string: its decimal digits.\<close>

definition digitChar :: "nat \<Rightarrow> char" where
  "digitChar d = (''0123456789'' ! d)"

function showNat :: "nat \<Rightarrow> string" where
  "showNat n = (if n < 10 then [digitChar n] else showNat (n div 10) @ [digitChar (n mod 10)])"
  by pat_completeness auto
termination
  by (relation "measure id") auto

declare showNat.simps [simp del]

text \<open>The number a string of decimal digits denotes.\<close>

definition isDigit :: "char \<Rightarrow> bool" where
  "isDigit c = (c \<in> set ''0123456789'')"

definition digitValue :: "char \<Rightarrow> nat" where
  "digitValue c = length (takeWhile (\<lambda>d. d \<noteq> c) ''0123456789'')"

definition numeralValue :: "string \<Rightarrow> nat" where
  "numeralValue s = foldl (\<lambda>n c. 10 * n + digitValue c) 0 s"

subsection \<open>A backtracking matcher for the regular expressions of the sources\<close>





subsection \<open>JavaScript objects\<close>

text \<open>
  A plain object is the association list of its own properties in property order. Its
  prototype is \<open>Object.prototype\<close>, so the lookup \<open>obj[key]\<close> and the test \<open>key in obj\<close>
  also find the members every object inherits; \<open>Object.keys\<close>, \<open>Object.entries\<close> and
  the spread see own properties only. An inherited member is a function (for \<open>__proto__\<close>
  the prototype object), never a string, and it is truthy.
\<close>

definition objectPrototypeKeys :: "string list" where
  "objectPrototypeKeys =
     [''constructor'', ''__defineGetter__'', ''__defineSetter__'', ''hasOwnProperty'',
      ''__lookupGetter__'', ''__lookupSetter__'', ''isPrototypeOf'', ''propertyIsEnumerable'',
      ''toString'', ''valueOf'', ''__proto__'', ''toLocaleString'']"

datatype 'v property = Own 'v | Inherited | Missing

definition getProperty :: "(string \<times> 'v) list \<Rightarrow> string \<Rightarrow> 'v property" where
  "getProperty obj key =
     (case map_of obj key of
        Some v \<Rightarrow> Own v
      | None \<Rightarrow> if key \<in> set objectPrototypeKeys then Inherited else Missing)"

definition hasProperty :: "(string \<times> 'v) list \<Rightarrow> string \<Rightarrow> bool" where
  "hasProperty obj key = (case getProperty obj key of Missing \<Rightarrow> False | _ \<Rightarrow> True)"

text \<open>
  Property order: the keys that are array indices (the decimal numeral, without leading
  zeros, of a number below \<open>2^32 - 1\<close>) come first in ascending order, the other keys
  follow in the order in which they were created. The assignment \<open>obj[key] = value\<close> of a
  string or another primitive keeps the place of an own key and puts a new key at its place
  in this order. The one key it does not create is \<open>__proto__\<close>: the assignment goes to the
  accessor every object inherits, which ignores a value that is not an object.
\<close>

definition isArrayIndex :: "string \<Rightarrow> bool" where
  "isArrayIndex s =
     (s \<noteq> [] \<and> list_all isDigit s \<and> (s = ''0'' \<or> hd s \<noteq> CHR ''0'')
      \<and> numeralValue s < 4294967295)"

fun insertIndexKey :: "string \<Rightarrow> 'v \<Rightarrow> (string \<times> 'v) list \<Rightarrow> (string \<times> 'v) list" where
  "insertIndexKey key v [] = [(key, v)]"
| "insertIndexKey key v (p # ps) =
     (if isArrayIndex (fst p) \<and> numeralValue (fst p) < numeralValue key
      then p # insertIndexKey key v ps
      else (key, v) # p # ps)"

definition setProperty :: "string \<Rightarrow> 'v \<Rightarrow> (string \<times> 'v) list \<Rightarrow> (string \<times> 'v) list" where
  "setProperty key v obj =
     (if key \<in> set (map fst obj) then AList.update key v obj
      else if key = ''__proto__'' then obj
      else if isArrayIndex key then insertIndexKey key v obj
      else obj @ [(key, v)])"

text \<open>The values \<open>JSON.parse\<close> returns.\<close>

datatype json = JsonNull | JsonBool bool | JsonNum int | JsonStr string | JsonArr "json list"
  | JsonObj "(string \<times> json) list"

fun jsonTruthy :: "json \<Rightarrow> bool" where
  "jsonTruthy JsonNull = False"
| "jsonTruthy (JsonBool b) = b"
| "jsonTruthy (JsonNum n) = (n \<noteq> 0)"
| "jsonTruthy (JsonStr s) = (s \<noteq> [])"
| "jsonTruthy (JsonArr xs) = True"
| "jsonTruthy (JsonObj props) = True"

text \<open>The spread \<open>{...value}\<close>: the own enumerable properties of an object, the elements
  of an array and the characters of a string under their indices, nothing for the other
  primitives.\<close>

definition indexed :: "'a list \<Rightarrow> (string \<times> 'a) list" where
  "indexed xs = zip (map showNat [0..<length xs]) xs"

fun spread :: "json \<Rightarrow> (string \<times> json) list" where
  "spread (JsonObj props) = props"
| "spread (JsonArr xs) = indexed xs"
| "spread (JsonStr s) = indexed (map (\<lambda>c. JsonStr [c]) s)"
| "spread v = []"

text \<open>The errors the runtime throws. \<open>IllTypedPath\<close> is the answer of the model to a patch
  that no diff produces (see the replay of patches below).\<close>

datatype jsError = TypeError | RangeError | IllTypedPath

subsection \<open>SandpackAdapter: the in-memory adapter\<close>

text \<open>
  The adapter holds no file state of its own: it reads the file map through \<open>getFiles\<close>
  and reports every write, delete and dependency change to callbacks of its host. The host
  state has type \<open>'h\<close>; \<open>onDependenciesChanged\<close> is optional.
\<close>

record 'h adapterCallbacks =
  getFiles :: "'h \<Rightarrow> fileMap"
  onFileUpdate :: "string \<Rightarrow> string \<Rightarrow> 'h \<Rightarrow> 'h"
  onFileDelete :: "string \<Rightarrow> 'h \<Rightarrow> 'h"
  onDependenciesChanged :: "((string \<times> json) list \<Rightarrow> 'h \<Rightarrow> 'h) option"

datatype adapterError = FileNotFound string | PathNotFound string

text \<open>The content of a write: a string, or a \<open>Uint8Array\<close>.\<close>

datatype fileContent = Text string | Binary "nat list"

definition BINARY_EXTENSIONS :: "string list" where
  "BINARY_EXTENSIONS =
     [''.png'', ''.jpg'', ''.jpeg'', ''.gif'', ''.bmp'', ''.ico'', ''.svg'',
      ''.webp'', ''.avif'', ''.mp3'', ''.mp4'', ''.wav'', ''.ogg'', ''.webm'',
      ''.woff'', ''.woff2'', ''.ttf'', ''.eot'', ''.otf'',
      ''.zip'', ''.tar'', ''.gz'', ''.7z'', ''.rar'',
      ''.pdf'', ''.exe'', ''.dll'', ''.so'', ''.dylib'']"

definition isBinaryPath :: "string \<Rightarrow> bool" where
  "isBinaryPath path =
     (toLowerCase (slice path (lastIndexOf path CHR ''.'')) \<in> set BINARY_EXTENSIONS)"

definition normalizePath :: "string \<Rightarrow> string" where
  "normalizePath p = (if \<not> startsWith p ''/'' then ''/'' @ p else p)"

text \<open>
  \<open>readFile\<close> tests \<open>normalized in files\<close> and then \<open>withoutSlash in files\<close>. A
  normalized path starts with a slash and no inherited member does, so the first test is
  the test for an own key. The second can find an inherited member (the path
  \<open>constructor\<close>, say); what is returned then is that member and not a string.
\<close>

datatype readValue = Content string | PrototypeMember string


text \<open>\<open>writeFile\<close> warns and returns on binary content and on a binary path; neither
  branch throws, and neither calls a callback.\<close>

definition writeFile ::
  "'h adapterCallbacks \<Rightarrow> string \<Rightarrow> fileContent \<Rightarrow> 'h \<Rightarrow> adapterError + 'h" where
  "writeFile cb path content h =
     (let normalized = normalizePath path in
      case content of
        Binary bytes \<Rightarrow> Inr h
      | Text text \<Rightarrow>
          if isBinaryPath normalized then Inr h
          else Inr (onFileUpdate cb normalized text h))"




text \<open>
  The manifest. \<open>JSON.parse\<close>, \<open>JSON.stringify\<close> and the conversion of a string to an
  array length are built-ins of the platform and are parameters of the model.
  \<open>JSON_parse pf s = None\<close> stands for a \<open>SyntaxError\<close>; \<open>toArrayLength pf s\<close> is \<open>Some n\<close>
  when the string converts to the number \<open>n\<close>, an integer below \<open>2^32\<close>, and \<open>None\<close>
  otherwise. The variable \<open>packageJson\<close> has the type \<open>any\<close>: it holds whatever
  \<open>JSON.parse\<close> returned.
\<close>

record platform =
  JSON_parse :: "string \<Rightarrow> json option"
  JSON_stringify :: "json \<Rightarrow> string"
  toArrayLength :: "string \<Rightarrow> nat option"

definition defaultPackageJson :: json where
  "defaultPackageJson =
     JsonObj [(''name'', JsonStr ''sandbox''), (''version'', JsonStr ''1.0.0''),
              (''dependencies'', JsonObj [])]"

text \<open>The manifest \<open>handleNpmInstall\<close> starts from: the content at \<open>/package.json\<close>, else at
  \<open>package.json\<close>; the default when there is none, when it is the empty string, and when
  parsing throws.\<close>

definition loadPackageJson :: "platform \<Rightarrow> fileMap \<Rightarrow> json" where
  "loadPackageJson pf files =
     (let existing = (case map_of files ''/package.json'' of
                        Some s \<Rightarrow> Some s
                      | None \<Rightarrow> map_of files ''package.json'')
      in case existing of
           None \<Rightarrow> defaultPackageJson
         | Some s \<Rightarrow>
             if s = [] then defaultPackageJson
             else (case JSON_parse pf s of
                     Some p \<Rightarrow> p
                   | None \<Rightarrow> defaultPackageJson))"

text \<open>
  The value of \<open>packageJson.dependencies\<close> that the loop writes to. After the guard
  \<open>if (!packageJson.dependencies) packageJson.dependencies = {}\<close> it is truthy: an object,
  an array (with its elements, \<open>None\<close> for a hole, and the named properties it has been
  given), or a primitive.
\<close>

datatype dependencyTable =
    PlainTable "(string \<times> json) list"
  | ArrayTable "json option list" "(string \<times> json) list"
  | PrimitiveTable json

fun tableOf :: "json \<Rightarrow> dependencyTable" where
  "tableOf (JsonObj props) = PlainTable props"
| "tableOf (JsonArr xs) = ArrayTable (map Some xs) []"
| "tableOf v = PrimitiveTable v"

text \<open>
  The guard. Reading a property of \<open>null\<close> throws. A boolean, a number and a string have
  no property \<open>dependencies\<close>, and the assignment of one to a primitive throws in strict
  code (a module, and a class body, are strict). An array takes \<open>dependencies\<close> as a named
  property, which \<open>JSON.stringify\<close> does not print. The result is the manifest after the
  guard and the table.
\<close>

fun ensureDependencies :: "json \<Rightarrow> jsError + json \<times> dependencyTable" where
  "ensureDependencies JsonNull = Inl TypeError"
| "ensureDependencies (JsonBool b) = Inl TypeError"
| "ensureDependencies (JsonNum n) = Inl TypeError"
| "ensureDependencies (JsonStr s) = Inl TypeError"
| "ensureDependencies (JsonArr xs) = Inr (JsonArr xs, PlainTable [])"
| "ensureDependencies (JsonObj props) =
     (case map_of props ''dependencies'' of
        None \<Rightarrow> Inr (JsonObj (setProperty ''dependencies'' (JsonObj []) props), PlainTable [])
      | Some d \<Rightarrow>
          if jsonTruthy d then Inr (JsonObj props, tableOf d)
          else Inr (JsonObj (setProperty ''dependencies'' (JsonObj []) props), PlainTable []))"

text \<open>One token \<open>name[@version]\<close>: split at the last \<open>@\<close> unless it is the first
  character (a scope) or absent.\<close>

definition parsePackageSpec :: "string \<Rightarrow> string \<times> string" where
  "parsePackageSpec pkg =
     (let atIndex = lastIndexOf pkg CHR ''@'' in
      if atIndex > 0 then (take (nat atIndex) pkg, drop (nat (atIndex + 1)) pkg)
      else (pkg, ''latest''))"

text \<open>
  The assignment \<open>packageJson.dependencies[name] = version\<close>. On an object it is the
  assignment of a string to a property. On an array, \<open>length\<close> is set through the
  conversion of the version to an array length (a \<open>RangeError\<close> when it is none, else the
  array is cut or filled with holes), an array index sets that element (filling with holes
  up to it), \<open>__proto__\<close> goes to the inherited accessor, and any other name is a named
  property. On a primitive the assignment throws in strict code, except that \<open>__proto__\<close>
  goes to the inherited accessor, which returns.
\<close>

fun assignDependency ::
  "platform \<Rightarrow> string \<Rightarrow> string \<Rightarrow> dependencyTable \<Rightarrow> jsError + dependencyTable" where
  "assignDependency pf name version (PlainTable props) =
     Inr (PlainTable (setProperty name (JsonStr version) props))"
| "assignDependency pf name version (ArrayTable elements named) =
     (if name = ''length'' then
        (case toArrayLength pf version of
           None \<Rightarrow> Inl RangeError
         | Some n \<Rightarrow>
             Inr (ArrayTable (take n elements @ replicate (n - length elements) None) named))
      else if isArrayIndex name then
        (let i = numeralValue name in
         Inr (ArrayTable
                (if i < length elements then elements[i := Some (JsonStr version)]
                 else elements @ replicate (i - length elements) None @ [Some (JsonStr version)])
                named))
      else Inr (ArrayTable elements (setProperty name (JsonStr version) named)))"
| "assignDependency pf name version (PrimitiveTable v) =
     (if name = ''__proto__'' then Inr (PrimitiveTable v) else Inl TypeError)"

text \<open>The loop over the tokens: flags are skipped, every other token is assigned to the
  table and recorded in \<open>installed\<close>. An assignment that throws ends the call.\<close>

fun installPackages ::
  "platform \<Rightarrow> string list \<Rightarrow> dependencyTable \<times> string list
     \<Rightarrow> jsError + dependencyTable \<times> string list" where
  "installPackages pf [] acc = Inr acc"
| "installPackages pf (pkg # pkgs) (table, installed) =
     (if startsWith pkg ''-'' then installPackages pf pkgs (table, installed)
      else (case parsePackageSpec pkg of (name, version) \<Rightarrow>
              (case assignDependency pf name version table of
                 Inl err \<Rightarrow> Inl err
               | Inr table' \<Rightarrow>
                   installPackages pf pkgs (table', installed @ [name @ ''@'' @ version]))))"

definition installOutput :: "string list \<Rightarrow> string" where
  "installOutput installed =
     joinWith newline (map (\<lambda>p. ''+ '' @ p) installed) @ newline @ newline
       @ ''added '' @ showNat (length installed) @ '' package(s)'' @ newline"

text \<open>What \<open>JSON.stringify\<close> and the spread see of the table: a hole of an array prints
  as \<open>null\<close> and is skipped by the spread; the named properties of an array are not
  printed and are spread after the elements.\<close>

fun jsonOfTable :: "dependencyTable \<Rightarrow> json" where
  "jsonOfTable (PlainTable props) = JsonObj props"
| "jsonOfTable (ArrayTable elements named) =
     JsonArr (map (\<lambda>e. case e of None \<Rightarrow> JsonNull | Some v \<Rightarrow> v) elements)"
| "jsonOfTable (PrimitiveTable v) = v"

fun spreadTable :: "dependencyTable \<Rightarrow> (string \<times> json) list" where
  "spreadTable (PlainTable props) = props"
| "spreadTable (ArrayTable elements named) =
     concat (map (\<lambda>(i, e). case e of None \<Rightarrow> [] | Some v \<Rightarrow> [(i, v)]) (indexed elements))
       @ named"
| "spreadTable (PrimitiveTable v) = spread v"

fun withDependencies :: "json \<Rightarrow> dependencyTable \<Rightarrow> json" where
  "withDependencies (JsonObj props) table =
     JsonObj (AList.update ''dependencies'' (jsonOfTable table) props)"
| "withDependencies root table = root"

text \<open>\<open>handleNpmInstall\<close>. Both callbacks are called after the loop, so a call that throws
  has called none.\<close>

definition handleNpmInstall ::
  "platform \<Rightarrow> 'h adapterCallbacks \<Rightarrow> string \<Rightarrow> 'h \<Rightarrow> jsError + 'h \<times> readValue" where
  "handleNpmInstall pf cb packagesStr h =
     (let files = getFiles cb h;
          pkgJsonPath = ''/package.json'';
          packageJson = loadPackageJson pf files
      in case ensureDependencies packageJson of
           Inl err \<Rightarrow> Inl err
         | Inr (root, table) \<Rightarrow>
             (case installPackages pf (splitWhitespace packagesStr) (table, []) of
                Inl err \<Rightarrow> Inl err
              | Inr (table', installed) \<Rightarrow>
                  (let updatedContent = JSON_stringify pf (withDependencies root table');
                       h1 = onFileUpdate cb pkgJsonPath updatedContent h;
                       h2 = (case onDependenciesChanged cb of
                               None \<Rightarrow> h1
                             | Some notify \<Rightarrow> notify (spreadTable table') h1)
                   in Inr (h2, Content (installOutput installed)))))"






definition deleteFiles :: "'h adapterCallbacks \<Rightarrow> string \<Rightarrow> 'h \<Rightarrow> 'h" where
  "deleteFiles cb path h =
     (let normalized = normalizePath path; files = getFiles cb h in
      if map_of files normalized \<noteq> None then onFileDelete cb normalized h
      else (let dirPrefix = (if endsWith normalized ''/'' then normalized else normalized @ ''/'')
            in fold (\<lambda>filePath h'. if startsWith filePath dirPrefix
                                     then onFileDelete cb filePath h' else h')
                 (map fst files) h))"

text \<open>
  \<open>deleteFiles\<close> and \<open>renameFile\<close> test \<open>normalized in files\<close> on a normalized path, which
  is the test for an own key (no inherited member starts with a slash).

  \<open>renameFile\<close>. In the exact-match branch the content is read first, then the new path is
  written and the old path deleted, in this order. In the directory branch the loop runs
  over the keys the map had when the loop started; \<open>files[filePath]\<close> is read inside the
  loop from the object \<open>getFiles\<close> returned, which is the object the host's callbacks
  mutate (the adapter tests and \<open>SandboxManager\<close> both hand out their own map), so the read
  sees the writes of earlier iterations. A key of the start list is deleted only by its own
  iteration, so the read is defined when the keys are distinct; \<open>moveChild\<close> then only
  deletes in the remaining case.
\<close>

definition moveChild :: "'h adapterCallbacks \<Rightarrow> string \<Rightarrow> string \<Rightarrow> string \<Rightarrow> 'h \<Rightarrow> 'h" where
  "moveChild cb dirPrefix newDirPrefix filePath h =
     (if startsWith filePath dirPrefix then
        (let newFilePath = newDirPrefix @ drop (length dirPrefix) filePath in
         case map_of (getFiles cb h) filePath of
           Some content \<Rightarrow> onFileDelete cb filePath (onFileUpdate cb newFilePath content h)
         | None \<Rightarrow> onFileDelete cb filePath h)
      else h)"

definition renameFile :: "'h adapterCallbacks \<Rightarrow> string \<Rightarrow> string \<Rightarrow> 'h \<Rightarrow> 'h" where
  "renameFile cb oldPath newPath h =
     (let normalizedOld = normalizePath oldPath;
          normalizedNew = normalizePath newPath;
          files = getFiles cb h in
      case map_of files normalizedOld of
        Some content \<Rightarrow> onFileDelete cb normalizedOld (onFileUpdate cb normalizedNew content h)
      | None \<Rightarrow>
          (let dirPrefix =
                 (if endsWith normalizedOld ''/'' then normalizedOld else normalizedOld @ ''/'');
               newDirPrefix =
                 (if endsWith normalizedNew ''/'' then normalizedNew else normalizedNew @ ''/'')
           in fold (moveChild cb dirPrefix newDirPrefix) (map fst files) h))"

text \<open>The host of the adapter's test suite (\<open>createTestAdapter\<close>): a file map that the
  callbacks update in place, the list of deleted paths and the latest dependency table.\<close>

record testHost =
  files_t :: fileMap
  deletedPaths :: "string list"
  latestDeps :: "(string \<times> json) list"

definition createTestAdapter :: "testHost adapterCallbacks" where
  "createTestAdapter =
     \<lparr>getFiles = files_t,
      onFileUpdate = (\<lambda>path content h. h\<lparr>files_t := setProperty path content (files_t h)\<rparr>),
      onFileDelete = (\<lambda>path h. h\<lparr>files_t := AList.delete path (files_t h),
                                   deletedPaths := deletedPaths h @ [path]\<rparr>),
      onDependenciesChanged = Some (\<lambda>deps h. h\<lparr>latestDeps := deps\<rparr>)\<rparr>"

definition testHostOf :: "fileMap \<Rightarrow> testHost" where
  "testHostOf initialFiles = \<lparr>files_t = initialFiles, deletedPaths = [], latestDeps = []\<rparr>"

subsection \<open>SandpackFileWatcher: the poll-based watcher\<close>

text \<open>
  A registered callback is a value of type \<open>'cb\<close>; calling it with an event is recorded as
  a pair in \<open>delivered\<close>. The interval timers of the runtime are part of the state:
  \<open>setInterval\<close> returns a fresh non-zero handle and adds it to \<open>activeIntervals\<close>,
  \<open>clearInterval\<close> removes it, and a timer fires (\<open>tick\<close>) only while it is active. The
  file map that \<open>getFiles()\<close> returns at a tick is an argument of the tick.
\<close>

datatype watchType = Add | Change | Remove

datatype watchEvent = WatchEvent (evtype: watchType) (paths: "string list")

record 'cb fileWatcher =
  callbacks :: "'cb list"
  intervalId :: "nat option"
  previousSnapshot :: fileMap

record 'cb watcherRuntime =
  watcher :: "'cb fileWatcher"
  activeIntervals :: "nat list"
  timerCount :: nat
  delivered :: "('cb \<times> watchEvent) list"

definition emit :: "'cb fileWatcher \<Rightarrow> watchEvent \<Rightarrow> ('cb \<times> watchEvent) list" where
  "emit w event = map (\<lambda>callback. (callback, event)) (callbacks w)"

text \<open>
  The three loops of \<open>detectChanges\<close>. The tests \<open>path in this.previousSnapshot\<close> and
  \<open>path in currentFiles\<close> also hold for the members every object inherits. A key of the
  current map that the snapshot has only as an inherited member is compared with that
  member, which is no string, so it counts as changed.
\<close>

definition addedPaths :: "fileMap \<Rightarrow> fileMap \<Rightarrow> string list" where
  "addedPaths prev cur = filter (\<lambda>path. \<not> hasProperty prev path) (map fst cur)"

definition changedPaths :: "fileMap \<Rightarrow> fileMap \<Rightarrow> string list" where
  "changedPaths prev cur =
     filter (\<lambda>path. hasProperty prev path \<and> getProperty cur path \<noteq> getProperty prev path)
       (map fst cur)"

definition removedPaths :: "fileMap \<Rightarrow> fileMap \<Rightarrow> string list" where
  "removedPaths prev cur = filter (\<lambda>path. \<not> hasProperty cur path) (map fst prev)"

definition batch :: "watchType \<Rightarrow> string list \<Rightarrow> watchEvent list" where
  "batch t ps = (if 0 < length ps then [WatchEvent t ps] else [])"

definition detectEvents :: "fileMap \<Rightarrow> fileMap \<Rightarrow> watchEvent list" where
  "detectEvents prev cur =
     batch Add (addedPaths prev cur) @ batch Change (changedPaths prev cur)
       @ batch Remove (removedPaths prev cur)"

definition detectChanges ::
  "fileMap \<Rightarrow> 'cb fileWatcher \<Rightarrow> 'cb fileWatcher \<times> ('cb \<times> watchEvent) list" where
  "detectChanges currentFiles w =
     (w\<lparr>previousSnapshot := currentFiles\<rparr>,
      concat (map (emit w) (detectEvents (previousSnapshot w) currentFiles)))"

definition startWatcher :: "fileMap \<Rightarrow> 'cb watcherRuntime \<Rightarrow> 'cb watcherRuntime" where
  "startWatcher currentFiles rt =
     (let newId = Suc (timerCount rt) in
      rt\<lparr>watcher := (watcher rt)\<lparr>previousSnapshot := currentFiles, intervalId := Some newId\<rparr>,
         activeIntervals := newId # activeIntervals rt,
         timerCount := newId\<rparr>)"

text \<open>\<open>stop\<close>: the guard \<open>if (this.intervalId)\<close> is a truthiness test, false for \<open>null\<close>
  and for the handle 0.\<close>

definition stopWatcher :: "'cb watcherRuntime \<Rightarrow> 'cb watcherRuntime" where
  "stopWatcher rt =
     (let rt1 = (case intervalId (watcher rt) of
                   None \<Rightarrow> rt
                 | Some i \<Rightarrow>
                     if i = 0 then rt
                     else rt\<lparr>activeIntervals := removeAll i (activeIntervals rt),
                             watcher := (watcher rt)\<lparr>intervalId := None\<rparr>\<rparr>)
      in rt1\<lparr>watcher := (watcher rt1)\<lparr>callbacks := []\<rparr>\<rparr>)"

definition registerEventCallback :: "'cb \<Rightarrow> 'cb watcherRuntime \<Rightarrow> 'cb watcherRuntime" where
  "registerEventCallback callback rt =
     rt\<lparr>watcher := (watcher rt)\<lparr>callbacks := callbacks (watcher rt) @ [callback]\<rparr>\<rparr>"

definition tick :: "nat \<Rightarrow> fileMap \<Rightarrow> 'cb watcherRuntime \<Rightarrow> 'cb watcherRuntime" where
  "tick timer currentFiles rt =
     (if timer \<in> set (activeIntervals rt) then
        (case detectChanges currentFiles (watcher rt) of
           (w', ds) \<Rightarrow> rt\<lparr>watcher := w', delivered := delivered rt @ ds\<rparr>)
      else rt)"

text \<open>Everything that can happen to a watcher: its three methods, and a timer firing while
  the file map has some content.\<close>

datatype 'cb watcherAction = Start fileMap | Stop | Register 'cb | Tick nat fileMap

fun step :: "'cb watcherAction \<Rightarrow> 'cb watcherRuntime \<Rightarrow> 'cb watcherRuntime" where
  "step (Start currentFiles) rt = startWatcher currentFiles rt"
| "step Stop rt = stopWatcher rt"
| "step (Register callback) rt = registerEventCallback callback rt"
| "step (Tick timer currentFiles) rt = tick timer currentFiles rt"

definition run :: "'cb watcherAction list \<Rightarrow> 'cb watcherRuntime \<Rightarrow> 'cb watcherRuntime" where
  "run acts rt = fold step acts rt"

fun registeredBy :: "'cb watcherAction list \<Rightarrow> 'cb list" where
  "registeredBy [] = []"
| "registeredBy (Register callback # acts) = callback # registeredBy acts"
| "registeredBy (a # acts) = registeredBy acts"

definition deliveredSince ::
  "'cb watcherRuntime \<Rightarrow> 'cb watcherRuntime \<Rightarrow> ('cb \<times> watchEvent) list" where
  "deliveredSince rt rt' = drop (length (delivered rt)) (delivered rt')"

subsection \<open>SessionManager.start\<close>

text \<open>
  The fields \<open>start\<close> reads and writes. What one call of \<open>attemptConnection\<close> does is
  decided by the environment: creating the provider client fails; or the client is created,
  \<open>provider\<close> and \<open>adapter\<close> are assigned and creating the terminal sessions fails; or the
  attempt succeeds. \<open>env k\<close> is the outcome of attempt number \<open>k\<close> (counted from 0). The
  terminal sessions themselves are not part of the model.

  \<open>start\<close> is asynchronous. While it waits (for the provider client, for the terminal
  sessions, for the retry delay) other code runs, and what that code sees of the manager is
  the state \<open>start\<close> has left it in. A run of \<open>start\<close> is therefore the manager after the call,
  how the call settled, the attempts and the waits between them in the order they happen,
  and the state of the manager at each point where the call was suspended.
\<close>

datatype 'p sessionAdapter = LegacySandboxAdapter 'p | SandpackAdapter

record 'p sessionManager =
  provider :: "'p option"
  adapter :: "'p sessionAdapter option"
  isConnecting :: bool

datatype 'p attemptOutcome = CreateFails string | TerminalsFail 'p string | Connects 'p

datatype sessionEvent = Attempt nat | Wait nat

datatype startResult = Resolved | Rejected "string option"

record 'p startRun =
  after :: "'p sessionManager"
  settled :: startResult
  trace :: "sessionEvent list"
  suspended :: "'p sessionManager list"

definition MAX_RETRIES :: nat where
  "MAX_RETRIES = 3"

definition RETRY_DELAY_MS :: nat where
  "RETRY_DELAY_MS = 2000"

definition retryWait :: "nat \<Rightarrow> sessionEvent list" where
  "retryWait attempt = (if attempt < MAX_RETRIES then [Wait RETRY_DELAY_MS] else [])"

definition retrySuspended :: "nat \<Rightarrow> 'p sessionManager \<Rightarrow> 'p sessionManager list" where
  "retrySuspended attempt s = (if attempt < MAX_RETRIES then [s] else [])"

text \<open>The loop \<open>for (attempt = 0; attempt <= MAX_RETRIES; attempt++)\<close> with its
  \<open>try\<close>/\<open>catch\<close>, and the two statements after it. An attempt is suspended once in
  \<open>createCodeProviderClient\<close> and, when that returned, once more in
  \<open>createTerminalSessions\<close>, with \<open>provider\<close> and \<open>adapter\<close> assigned.\<close>

function connectLoop ::
  "(nat \<Rightarrow> 'p attemptOutcome) \<Rightarrow> nat \<Rightarrow> string option \<Rightarrow> 'p sessionManager \<Rightarrow> 'p startRun" where
  "connectLoop env attempt lastError s =
     (if attempt \<le> MAX_RETRIES then
        (case env attempt of
           Connects p \<Rightarrow>
             (let s1 = s\<lparr>provider := Some p, adapter := Some (LegacySandboxAdapter p)\<rparr> in
              \<lparr>after = s1\<lparr>isConnecting := False\<rparr>, settled = Resolved,
               trace = [Attempt attempt], suspended = [s, s1]\<rparr>)
         | CreateFails err \<Rightarrow>
             (let s2 = s\<lparr>provider := None\<rparr>;
                  r = connectLoop env (Suc attempt) (Some err) s2 in
              r\<lparr>trace := Attempt attempt # retryWait attempt @ trace r,
                suspended := s # retrySuspended attempt s2 @ suspended r\<rparr>)
         | TerminalsFail p err \<Rightarrow>
             (let s1 = s\<lparr>provider := Some p, adapter := Some (LegacySandboxAdapter p)\<rparr>;
                  s2 = s1\<lparr>provider := None\<rparr>;
                  r = connectLoop env (Suc attempt) (Some err) s2 in
              r\<lparr>trace := Attempt attempt # retryWait attempt @ trace r,
                suspended := s # s1 # retrySuspended attempt s2 @ suspended r\<rparr>))
      else \<lparr>after = s\<lparr>isConnecting := False\<rparr>, settled = Rejected lastError,
            trace = [], suspended = []\<rparr>)"
  by pat_completeness auto
termination
  by (relation "measure (\<lambda>(env, attempt, lastError, s). Suc MAX_RETRIES - attempt)") auto

declare connectLoop.simps [simp del]

definition start :: "(nat \<Rightarrow> 'p attemptOutcome) \<Rightarrow> 'p sessionManager \<Rightarrow> 'p startRun" where
  "start env s =
     (if isConnecting s \<or> provider s \<noteq> None
      then \<lparr>after = s, settled = Resolved, trace = [], suspended = []\<rparr>
      else connectLoop env 0 None (s\<lparr>isConnecting := True\<rparr>))"







subsection \<open>The versioned document store\<close>

text \<open>
  Modelled from the spec: the versioned document store is the Automerge library, which is
  a dependency and not part of the sources. A document is the list of its changes in
  chronological order, each with its hash, message, time and the document root after it
  (what \<open>Automerge.getHistory\<close> returns); the history is linear (one writer). The heads of a
  document are the hash of its last change. \<open>handle.change(callback, options)\<close> appends a
  change exactly when the callback produced at least one operation, so the model of a
  callback returns the new root together with the number of operations; the hash and time
  of the new change are arguments. A handle whose document is not available has
  \<open>docSync = None\<close>.
\<close>

record 'r historyState =
  hash :: string
  message :: "string option"
  time :: nat
  snapshot :: "'r"

type_synonym 'r doc = "'r historyState list"

type_synonym heads = "string list"

datatype 'r docHandle = DocHandle (docSync: "'r doc option")

definition getHeads :: "'r doc \<Rightarrow> heads" where
  "getHeads doc = (case doc of [] \<Rightarrow> [] | _ \<Rightarrow> [hash (last doc)])"

definition currentRoot :: "'r \<Rightarrow> 'r doc \<Rightarrow> 'r" where
  "currentRoot emptyRoot doc = (case doc of [] \<Rightarrow> emptyRoot | _ \<Rightarrow> snapshot (last doc))"

definition commitChange ::
  "string \<Rightarrow> nat \<Rightarrow> string option \<Rightarrow> 'r \<times> nat \<Rightarrow> 'r doc \<Rightarrow> 'r doc" where
  "commitChange newHash changeTime msg result doc =
     (if snd result = 0 then doc
      else doc @ [\<lparr>hash = newHash, message = msg, time = changeTime, snapshot = fst result\<rparr>])"

subsection \<open>SandboxManager: snapshots\<close>

text \<open>
  The document of \<open>SandboxManager\<close> is declared with the schema \<open>AutomergeSchema\<close>, a
  \<open>files\<close> map; \<open>createSnapshot\<close> adds a \<open>metadata\<close> object. Neither is there from the
  start: \<open>initPersistence\<close> creates the document with \<open>repo.create()\<close>, whose first change
  is empty, and assigns \<open>files\<close> in a second change. So both are optional in a root. The
  manager keeps its own copy of the file map (\<open>this.files\<close>), the dependency table and the
  browser file system it seeds.
\<close>

record metadataRec =
  lastSnapshot :: "nat option"

record automergeSchema =
  files :: "fileMap option"
  metadata :: "metadataRec option"

definition emptySchema :: automergeSchema where
  "emptySchema = \<lparr>files = None, metadata = None\<rparr>"

record sandboxManager =
  handle :: "automergeSchema docHandle option"
  files_m :: fileMap
  dependencies_m :: "(string \<times> json) list"
  fs :: "fileMap option"

datatype sandboxError = HandleNotReady | CallbackThrows jsError

text \<open>\<open>parseDependencies\<close>: the spread of \<open>parsed.dependencies ?? {}\<close>, and the empty table
  when parsing throws or the parsed value is \<open>null\<close> (reading its property throws inside
  the \<open>try\<close>).\<close>

definition parseDependencies :: "platform \<Rightarrow> string \<Rightarrow> (string \<times> json) list" where
  "parseDependencies pf packageJsonContent =
     (case JSON_parse pf packageJsonContent of
        Some (JsonObj props) \<Rightarrow>
          (case map_of props ''dependencies'' of None \<Rightarrow> [] | Some d \<Rightarrow> spread d)
      | _ \<Rightarrow> [])"

definition seedFilesToZenFS :: "sandboxManager \<Rightarrow> sandboxManager" where
  "seedFilesToZenFS m =
     (case fs m of
        None \<Rightarrow> m
      | Some z0 \<Rightarrow>
          m\<lparr>fs := Some (fold (\<lambda>filePath z. case map_of (files_m m) filePath of
                                               None \<Rightarrow> z
                                             | Some content \<Rightarrow> AList.update filePath content z)
                           (map fst (files_m m)) z0)\<rparr>)"

text \<open>The callback of \<open>createSnapshot\<close>: create \<open>metadata\<close> when it is missing, then stamp
  it with the current time. Writing a number over the same number is no operation.\<close>

definition snapshotCallback :: "nat \<Rightarrow> automergeSchema \<Rightarrow> automergeSchema \<times> nat" where
  "snapshotCallback now d =
     (let r1 = (case metadata d of
                  None \<Rightarrow> (d\<lparr>metadata := Some \<lparr>lastSnapshot = None\<rparr>\<rparr>, \<lparr>lastSnapshot = None\<rparr>, 1)
                | Some md \<Rightarrow> (d, md, 0))
      in case r1 of (d1, md, ops) \<Rightarrow>
           if lastSnapshot md = Some now then (d1, ops)
           else (d1\<lparr>metadata := Some (md\<lparr>lastSnapshot := Some now\<rparr>)\<rparr>, Suc ops))"

text \<open>\<open>createSnapshot\<close> calls \<open>handle.change\<close> without waiting for the document; on a handle
  that is not ready the call throws.\<close>

definition createSnapshot ::
  "string \<Rightarrow> nat \<Rightarrow> nat \<Rightarrow> string \<Rightarrow> sandboxManager \<Rightarrow> sandboxError + sandboxManager" where
  "createSnapshot newHash changeTime now msg m =
     (case handle m of
        None \<Rightarrow> Inr m
      | Some hnd \<Rightarrow>
          (case docSync hnd of
             None \<Rightarrow> Inl HandleNotReady
           | Some doc \<Rightarrow>
               Inr (m\<lparr>handle := Some (DocHandle (Some
                      (commitChange newHash changeTime (Some msg)
                         (snapshotCallback now (currentRoot emptySchema doc)) doc)))\<rparr>)))"

text \<open>
  The callback of \<open>restoreSnapshot\<close>. Inside the callback \<open>d.files\<close> is the document's
  proxy, which answers for own keys only; \<open>snapshotFiles\<close> is a plain object. The first
  loop runs over the keys of the document's files and deletes a key when
  \<open>!snapshotFiles[path]\<close>, which holds for a key the snapshot lacks, unless it names an
  inherited member, and for a key whose content in the snapshot is the empty string. The
  second loop runs over the entries of the snapshot and writes those that differ.

  \<open>Object.keys(d.files)\<close> throws when the document has no \<open>files\<close>. When the snapshot has
  none, \<open>snapshotFiles\<close> is \<open>undefined\<close>: the lookup in the first loop throws, and when that
  loop has nothing to run over, \<open>Object.entries(snapshotFiles)\<close> throws. A callback that
  throws leaves the document as it was.
\<close>

definition truthy :: "string property \<Rightarrow> bool" where
  "truthy v = (case v of Own s \<Rightarrow> s \<noteq> [] | Inherited \<Rightarrow> True | Missing \<Rightarrow> False)"

definition removeMissing :: "fileMap \<Rightarrow> fileMap \<times> nat \<Rightarrow> fileMap \<times> nat" where
  "removeMissing snapshotFiles acc =
     fold (\<lambda>path (fm, ops). if \<not> truthy (getProperty snapshotFiles path)
                             then (AList.delete path fm, Suc ops) else (fm, ops))
       (map fst (fst acc)) acc"

definition upsertFromSnapshot :: "fileMap \<Rightarrow> fileMap \<times> nat \<Rightarrow> fileMap \<times> nat" where
  "upsertFromSnapshot snapshotFiles acc =
     fold (\<lambda>(path, content) (fm, ops). if map_of fm path \<noteq> Some content
                                        then (AList.update path content fm, Suc ops)
                                        else (fm, ops))
       snapshotFiles acc"

definition restoreCallback ::
  "fileMap option \<Rightarrow> automergeSchema \<Rightarrow> jsError + automergeSchema \<times> nat" where
  "restoreCallback snapshotFiles d =
     (case files d of
        None \<Rightarrow> Inl TypeError
      | Some current \<Rightarrow>
          (case snapshotFiles of
             None \<Rightarrow> Inl TypeError
           | Some snap \<Rightarrow>
               (case upsertFromSnapshot snap (removeMissing snap (current, 0)) of
                  (fm, ops) \<Rightarrow> Inr (d\<lparr>files := Some fm\<rparr>, ops))))"

text \<open>The files a restore leaves: the files of the snapshot, and those current files that
  the snapshot lacks but that are named like an inherited member.\<close>

definition restoredFiles :: "fileMap \<Rightarrow> fileMap \<Rightarrow> string \<rightharpoonup> string" where
  "restoredFiles snap current =
     (\<lambda>p. case map_of snap p of
             Some c \<Rightarrow> Some c
           | None \<Rightarrow> if p \<in> set objectPrototypeKeys then map_of current p else None)"

definition revertMessage :: "string \<Rightarrow> string" where
  "revertMessage h = ''Revert to '' @ h"

text \<open>\<open>restoreSnapshot\<close>. After the change the manager's own file map becomes a copy of the
  snapshot's (the spread \<open>{...snapshotFiles}\<close>, which is empty for \<open>undefined\<close>), the
  dependency table is read from its manifest, and the file system is seeded. When the
  callback throws, nothing of this happens.\<close>

definition restoreSnapshot ::
  "platform \<Rightarrow> string \<Rightarrow> nat \<Rightarrow> string \<Rightarrow> sandboxManager \<Rightarrow> sandboxError + sandboxManager" where
  "restoreSnapshot pf newHash changeTime h m =
     (case handle m of
        None \<Rightarrow> Inr m
      | Some hnd \<Rightarrow>
          (case docSync hnd of
             None \<Rightarrow> Inr m
           | Some doc \<Rightarrow>
               (case find (\<lambda>st. hash st = h) doc of
                  None \<Rightarrow> Inr m
                | Some st \<Rightarrow>
                    (case restoreCallback (files (snapshot st)) (currentRoot emptySchema doc) of
                       Inl err \<Rightarrow> Inl (CallbackThrows err)
                     | Inr result \<Rightarrow>
                         (let snapshotFiles = (case files (snapshot st) of
                                                 None \<Rightarrow> []
                                               | Some snap \<Rightarrow> snap);
                              doc' = commitChange newHash changeTime (Some (revertMessage h))
                                       result doc;
                              pkgJson = (case map_of snapshotFiles ''/package.json'' of
                                           Some s \<Rightarrow> Some s
                                         | None \<Rightarrow> map_of snapshotFiles ''package.json'');
                              m1 = m\<lparr>handle := Some (DocHandle (Some doc')),
                                     files_m := snapshotFiles\<rparr>;
                              m2 = (case pkgJson of
                                      None \<Rightarrow> m1
                                    | Some s \<Rightarrow>
                                        if s = [] then m1
                                        else m1\<lparr>dependencies_m := parseDependencies pf s\<rparr>)
                          in Inr (seedFilesToZenFS m2))))))"

text \<open>\<open>checkoutAndSave\<close>: the snapshot, then the restore, each with the hash and time of
  its change. The result is the manager after the call and the error it threw, if any; a
  restore that throws leaves the snapshot that was just taken in place.\<close>

definition checkoutAndSave ::
  "platform \<Rightarrow> string \<Rightarrow> nat \<Rightarrow> nat \<Rightarrow> string \<Rightarrow> nat \<Rightarrow> string \<Rightarrow> string
     \<Rightarrow> sandboxManager \<Rightarrow> sandboxManager \<times> sandboxError option" where
  "checkoutAndSave pf saveHash saveTime now revertHash revertTime h saveMessage m =
     (case createSnapshot saveHash saveTime now saveMessage m of
        Inl err \<Rightarrow> (m, Some err)
      | Inr m1 \<Rightarrow>
          (case restoreSnapshot pf revertHash revertTime h m1 of
             Inl err \<Rightarrow> (m1, Some err)
           | Inr m2 \<Rightarrow> (m2, None)))"

record historyEntry =
  oid :: string
  message_e :: string
  timestamp :: nat
  author :: string
  files_e :: "fileMap option"

definition historyEntryOf :: "automergeSchema historyState \<Rightarrow> historyEntry" where
  "historyEntryOf st =
     \<lparr>oid = hash st,
      message_e = (case message st of
                     None \<Rightarrow> ''No message''
                   | Some s \<Rightarrow> if s = [] then ''No message'' else s),
      timestamp = time st,
      author = ''Onlook User'',
      files_e = files (snapshot st)\<rparr>"

definition getHistory :: "sandboxManager \<Rightarrow> historyEntry list" where
  "getHistory m =
     (case handle m of
        None \<Rightarrow> []
      | Some hnd \<Rightarrow> (case docSync hnd of None \<Rightarrow> [] | Some doc \<Rightarrow> map historyEntryOf doc))"

subsection \<open>Patches and their replay\<close>

text \<open>
  The document of the \<open>UndoRedoManager\<close> is an arbitrary JSON-like tree (\<open>jsValue\<close>); a
  text value is a string leaf. A patch is what \<open>Automerge.diff\<close> returns: an action and a
  path, whose elements are map keys and list or text indices. The actions \<open>mark\<close>,
  \<open>unmark\<close> and \<open>conflict\<close>, which \<open>applyPatch\<close> ignores, are \<open>OtherPatch\<close>.

  \<open>applyPatch\<close> mutates the document in place; the model returns the new document, or
  \<open>None\<close> when no statement changed it. A patch whose path indexes a map by a number or a
  list by a name is outside what a diff produces; the model answers \<open>IllTypedPath\<close> there.
\<close>

datatype jsValue = JUndefined | JNull | JBool bool | JNum int | JCounter int | JStr string
  | JArr "jsValue list" | JObj "(string \<times> jsValue) list"

datatype pathProp = PKey string | PIdx nat

datatype patch =
    PutPatch "pathProp list" jsValue
  | DelPatch "pathProp list" "nat option"
  | SplicePatch "pathProp list" string
  | InsertPatch "pathProp list" "jsValue list"
  | IncPatch "pathProp list" int
  | OtherPatch "pathProp list"

fun patchPath :: "patch \<Rightarrow> pathProp list" where
  "patchPath (PutPatch path v) = path"
| "patchPath (DelPatch path len) = path"
| "patchPath (SplicePatch path v) = path"
| "patchPath (InsertPatch path vs) = path"
| "patchPath (IncPatch path v) = path"
| "patchPath (OtherPatch path) = path"

text \<open>\<open>current[p]\<close>: reading a property of \<open>undefined\<close> or \<open>null\<close> throws; a string
  has its characters as indexed properties; any other primitive has none.\<close>

fun getProp :: "jsValue \<Rightarrow> pathProp \<Rightarrow> jsError + jsValue" where
  "getProp JUndefined p = Inl TypeError"
| "getProp JNull p = Inl TypeError"
| "getProp (JObj kvs) (PKey k) = (case map_of kvs k of None \<Rightarrow> Inr JUndefined | Some v \<Rightarrow> Inr v)"
| "getProp (JObj kvs) (PIdx i) = Inl IllTypedPath"
| "getProp (JArr vs) (PIdx i) = (if i < length vs then Inr (vs ! i) else Inr JUndefined)"
| "getProp (JArr vs) (PKey k) = Inl IllTypedPath"
| "getProp (JStr s) (PIdx i) = (if i < length s then Inr (JStr [s ! i]) else Inr JUndefined)"
| "getProp (JStr s) (PKey k) = Inr JUndefined"
| "getProp v p = Inr JUndefined"

fun setProp :: "jsValue \<Rightarrow> pathProp \<Rightarrow> jsValue \<Rightarrow> jsValue" where
  "setProp (JObj kvs) (PKey k) v = JObj (AList.update k v kvs)"
| "setProp (JArr vs) (PIdx i) v = JArr (vs[i := v])"
| "setProp c p v = c"

text \<open>The navigation loop \<open>current = current[path[i]]\<close> followed by a mutation \<open>f\<close> of the
  container it arrives at. The container is a reference into the document, so its mutation
  is a mutation of the document; a primitive reached on the way (a string) is a value, and
  nothing done to it reaches the document.\<close>

fun modifyAt ::
  "pathProp list \<Rightarrow> (jsValue \<Rightarrow> jsError + jsValue option) \<Rightarrow> jsValue
     \<Rightarrow> jsError + jsValue option" where
  "modifyAt [] f current = f current"
| "modifyAt (p # ps) f current =
     (case getProp current p of
        Inl err \<Rightarrow> Inl err
      | Inr child \<Rightarrow>
          (case modifyAt ps f child of
             Inl err \<Rightarrow> Inl err
           | Inr None \<Rightarrow> Inr None
           | Inr (Some child') \<Rightarrow> Inr (Some (setProp current p child'))))"

text \<open>Reading along a path: the value the navigation loop arrives at.\<close>

fun valueAt :: "pathProp list \<Rightarrow> jsValue \<Rightarrow> jsError + jsValue" where
  "valueAt [] current = Inr current"
| "valueAt (p # ps) current =
     (case getProp current p of Inl err \<Rightarrow> Inl err | Inr child \<Rightarrow> valueAt ps child)"

text \<open>\<open>current[key] = value\<close>: on a map, on a list (at an index, or one past the end),
  and a \<open>TypeError\<close> on anything else (the code is strict).\<close>

fun putAt :: "pathProp \<Rightarrow> jsValue \<Rightarrow> jsValue \<Rightarrow> jsError + jsValue option" where
  "putAt (PKey k) v (JObj kvs) = Inr (Some (JObj (AList.update k v kvs)))"
| "putAt (PIdx i) v (JArr vs) =
     (if i < length vs then Inr (Some (JArr (vs[i := v])))
      else if i = length vs then Inr (Some (JArr (vs @ [v])))
      else Inl RangeError)"
| "putAt key v (JObj kvs) = Inl IllTypedPath"
| "putAt key v (JArr vs) = Inl IllTypedPath"
| "putAt key v current = Inl TypeError"

text \<open>The \<open>del\<close> branch: \<open>splice\<close> on an array, \<open>delete current[key]\<close> on any other
  non-null object, and nothing at all otherwise. A string is not an object, so when the
  navigation loop has arrived at a text leaf the branch does nothing.\<close>

fun delAt :: "pathProp \<Rightarrow> nat option \<Rightarrow> jsValue \<Rightarrow> jsError + jsValue option" where
  "delAt (PIdx i) len (JArr vs) =
     (let n = (case len of None \<Rightarrow> 1 | Some l \<Rightarrow> l) in
      if i < length vs \<and> 0 < n then Inr (Some (JArr (take i vs @ drop (i + n) vs)))
      else Inr None)"
| "delAt (PKey k) len (JArr vs) = Inl IllTypedPath"
| "delAt (PKey k) len (JObj kvs) =
     (if map_of kvs k \<noteq> None then Inr (Some (JObj (AList.delete k kvs))) else Inr None)"
| "delAt (PIdx i) len (JObj kvs) = Inl IllTypedPath"
| "delAt key len current = Inr None"

fun insertAt :: "pathProp \<Rightarrow> jsValue list \<Rightarrow> jsValue \<Rightarrow> jsError + jsValue option" where
  "insertAt (PIdx i) vals (JArr vs) =
     (if vals = [] then Inr None else Inr (Some (JArr (take i vs @ vals @ drop i vs))))"
| "insertAt (PKey k) vals (JArr vs) = Inl IllTypedPath"
| "insertAt key vals current = Inr None"

text \<open>The \<open>inc\<close> branch: a counter is incremented, a number is added to; the value of the
  branch on any other object is not modelled.\<close>

fun incAt :: "pathProp \<Rightarrow> int \<Rightarrow> jsValue \<Rightarrow> jsError + jsValue option" where
  "incAt key d current =
     (case getProp current key of
        Inl err \<Rightarrow> Inl err
      | Inr (JNum n) \<Rightarrow> Inr (Some (setProp current key (JNum (n + d))))
      | Inr (JCounter n) \<Rightarrow> Inr (Some (setProp current key (JCounter (n + d))))
      | Inr JNull \<Rightarrow> Inl TypeError
      | Inr (JArr vs) \<Rightarrow> Inl IllTypedPath
      | Inr (JObj kvs) \<Rightarrow> Inl IllTypedPath
      | Inr other \<Rightarrow> Inr None)"

text \<open>Modelled from the spec: \<open>Automerge.splice(doc, path, index, 0, text)\<close> inserts
  \<open>text\<close> at \<open>index\<close> of the text leaf at \<open>path\<close>, and throws when there is no text leaf
  there or the index is past its end.\<close>

definition automergeSplice ::
  "pathProp list \<Rightarrow> nat \<Rightarrow> string \<Rightarrow> jsValue \<Rightarrow> jsError + jsValue option" where
  "automergeSplice propPath index ins doc =
     modifyAt propPath
       (\<lambda>target. case target of
                    JStr s \<Rightarrow> if length s < index then Inl RangeError
                              else if ins = [] then Inr None
                              else Inr (Some (JStr (take index s @ ins @ drop index s)))
                  | other \<Rightarrow> Inl RangeError)
       doc"

definition applyPatch :: "jsValue \<Rightarrow> patch \<Rightarrow> jsError + jsValue option" where
  "applyPatch doc p =
     (case p of
        SplicePatch path v \<Rightarrow>
          (if path = [] then Inl RangeError
           else (case last path of
                   PIdx index \<Rightarrow> automergeSplice (butlast path) index v doc
                 | PKey k \<Rightarrow> Inl IllTypedPath))
      | other \<Rightarrow>
          (if patchPath p = [] then Inl IllTypedPath
           else (let key = last (patchPath p) in
                 modifyAt (butlast (patchPath p))
                   (case p of
                      PutPatch path v \<Rightarrow> putAt key v
                    | DelPatch path len \<Rightarrow> delAt key len
                    | InsertPatch path vals \<Rightarrow> insertAt key vals
                    | IncPatch path d \<Rightarrow> incAt key d
                    | other \<Rightarrow> (\<lambda>current. Inr None))
                   doc)))"

text \<open>\<open>applyPatches\<close>: the patches in order, counting those that changed the document.\<close>

fun applyPatches :: "jsValue \<Rightarrow> patch list \<Rightarrow> jsError + jsValue \<times> nat" where
  "applyPatches doc [] = Inr (doc, 0)"
| "applyPatches doc (p # ps) =
     (case applyPatch doc p of
        Inl err \<Rightarrow> Inl err
      | Inr None \<Rightarrow> applyPatches doc ps
      | Inr (Some doc') \<Rightarrow>
          (case applyPatches doc' ps of
             Inl err \<Rightarrow> Inl err
           | Inr (doc'', ops) \<Rightarrow> Inr (doc'', Suc ops)))"

subsection \<open>UndoRedoManager\<close>

text \<open>
  The stacks are arrays: \<open>push\<close> appends, \<open>pop\<close> removes the last element. The state of the
  whole is the manager together with the document handle it was constructed on.
  \<open>Automerge.diff\<close> is a parameter \<open>diff\<close> of \<open>applyHeads\<close>, and so are the hash and time of
  the change that \<open>applyHeads\<close> commits. \<open>handle.change\<close> emits the \<open>change\<close> event, which
  calls \<open>onChange\<close> while \<open>isUndoingOrRedoing\<close> is set. The test of the popped heads
  after \<open>pop\<close> never fails (the stack was not empty, and an array is truthy), so it has
  no branch in the model.
\<close>

record undoRedoManager =
  undoStack :: "heads list"
  redoStack :: "heads list"
  currentHeads :: "heads option"
  isUndoingOrRedoing :: bool

type_synonym undoSystem = "undoRedoManager \<times> jsValue docHandle"

definition areHeadsEqual :: "heads \<Rightarrow> heads \<Rightarrow> bool" where
  "areHeadsEqual heads1 heads2 =
     (if length heads1 \<noteq> length heads2 then False else list_all (\<lambda>h. h \<in> set heads1) heads2)"

definition newUndoRedoManager :: "jsValue docHandle \<Rightarrow> undoSystem" where
  "newUndoRedoManager h =
     (\<lparr>undoStack = [], redoStack = [],
       currentHeads = (case docSync h of None \<Rightarrow> None | Some doc \<Rightarrow> Some (getHeads doc)),
       isUndoingOrRedoing = False\<rparr>, h)"

definition onChange :: "jsValue doc \<Rightarrow> undoRedoManager \<Rightarrow> undoRedoManager" where
  "onChange doc m =
     (if isUndoingOrRedoing m then m
      else (let newHeads = getHeads doc;
                m1 = (case currentHeads m of
                        None \<Rightarrow> m
                      | Some cur \<Rightarrow>
                          if \<not> areHeadsEqual cur newHeads
                          then m\<lparr>undoStack := undoStack m @ [cur], redoStack := []\<rparr>
                          else m)
            in m1\<lparr>currentHeads := Some newHeads\<rparr>))"

definition applyHeads ::
  "(jsValue doc \<Rightarrow> heads \<Rightarrow> heads \<Rightarrow> patch list) \<Rightarrow> string \<Rightarrow> nat \<Rightarrow> heads \<Rightarrow> undoSystem
     \<Rightarrow> undoSystem" where
  "applyHeads diff newHash changeTime hds sys =
     (case sys of (m, h) \<Rightarrow>
        (let m1 = m\<lparr>isUndoingOrRedoing := True\<rparr> in
         case docSync h of
           None \<Rightarrow> (m1\<lparr>isUndoingOrRedoing := False\<rparr>, h)
         | Some doc \<Rightarrow>
             (let patches = diff doc (getHeads doc) hds in
              if 0 < length patches then
                (case applyPatches (currentRoot (JObj []) doc) patches of
                   Inl err \<Rightarrow> (m1\<lparr>isUndoingOrRedoing := False\<rparr>, h)
                 | Inr result \<Rightarrow>
                     (let doc' = commitChange newHash changeTime None result doc;
                          m2 = (if snd result = 0 then m1 else onChange doc' m1)
                      in (m2\<lparr>currentHeads := Some hds, isUndoingOrRedoing := False\<rparr>,
                          DocHandle (Some doc'))))
              else (m1\<lparr>currentHeads := Some hds, isUndoingOrRedoing := False\<rparr>, h))))"

definition undo ::
  "(jsValue doc \<Rightarrow> heads \<Rightarrow> heads \<Rightarrow> patch list) \<Rightarrow> string \<Rightarrow> nat \<Rightarrow> undoSystem
     \<Rightarrow> undoSystem" where
  "undo diff newHash changeTime sys =
     (case sys of (m, h) \<Rightarrow>
        if length (undoStack m) = 0 then (m, h)
        else (let previousHeads = last (undoStack m);
                  m1 = m\<lparr>undoStack := butlast (undoStack m)\<rparr> in
              case docSync h of
                None \<Rightarrow> (m1, h)
              | Some doc \<Rightarrow>
                  (case currentHeads m1 of
                     None \<Rightarrow> (m1, h)
                   | Some cur \<Rightarrow>
                       applyHeads diff newHash changeTime previousHeads
                         (m1\<lparr>redoStack := redoStack m1 @ [cur]\<rparr>, h))))"

definition redo ::
  "(jsValue doc \<Rightarrow> heads \<Rightarrow> heads \<Rightarrow> patch list) \<Rightarrow> string \<Rightarrow> nat \<Rightarrow> undoSystem
     \<Rightarrow> undoSystem" where
  "redo diff newHash changeTime sys =
     (case sys of (m, h) \<Rightarrow>
        if length (redoStack m) = 0 then (m, h)
        else (let nextHeads = last (redoStack m);
                  m1 = m\<lparr>redoStack := butlast (redoStack m)\<rparr> in
              case currentHeads m1 of
                None \<Rightarrow> (m1, h)
              | Some cur \<Rightarrow>
                  applyHeads diff newHash changeTime nextHeads
                    (m1\<lparr>undoStack := undoStack m1 @ [cur]\<rparr>, h)))"

text \<open>An edit by anyone but the manager: a change is appended to the document and the
  \<open>change\<close> event reaches \<open>onChange\<close>.\<close>

definition externalChange :: "jsValue historyState \<Rightarrow> undoSystem \<Rightarrow> undoSystem" where
  "externalChange st sys =
     (case sys of (m, h) \<Rightarrow>
        (case docSync h of
           None \<Rightarrow> (m, h)
         | Some doc \<Rightarrow> (onChange (doc @ [st]) m, DocHandle (Some (doc @ [st])))))"

text \<open>The files projection of the document: the value of its \<open>files\<close> property.\<close>

definition filesProjection :: "undoSystem \<Rightarrow> jsValue" where
  "filesProjection sys =
     (case docSync (snd sys) of
        None \<Rightarrow> JUndefined
      | Some doc \<Rightarrow> (case getProp (currentRoot (JObj []) doc) (PKey ''files'') of
                       Inl err \<Rightarrow> JUndefined
                     | Inr v \<Rightarrow> v))"

subsection \<open>Concrete inputs\<close>

text \<open>A document with one text file, edited in place: the second change inserts \<open>y\<close> at
  index 1 of the text. Going back from the second change to the first, the diff is the
  deletion of one character at index 1 of that text.\<close>

definition textDoc :: "string \<Rightarrow> jsValue" where
  "textDoc s = JObj [(''files'', JObj [(''/a.js'', JStr s)])]"

definition oneFileDoc :: "jsValue doc" where
  "oneFileDoc = [\<lparr>hash = ''h1'', message = None, time = 1, snapshot = textDoc ''x''\<rparr>]"

definition textInsertion :: "jsValue historyState" where
  "textInsertion = \<lparr>hash = ''h2'', message = None, time = 2, snapshot = textDoc ''xy''\<rparr>"

definition textDiff :: "jsValue doc \<Rightarrow> heads \<Rightarrow> heads \<Rightarrow> patch list" where
  "textDiff doc fromHeads toHeads =
     (if fromHeads = [''h2''] \<and> toHeads = [''h1'']
      then [DelPatch [PKey ''files'', PKey ''/a.js'', PIdx 1] None]
      else if fromHeads = [''h1''] \<and> toHeads = [''h2'']
      then [SplicePatch [PKey ''files'', PKey ''/a.js'', PIdx 1] ''y'']
      else [])"

text \<open>A manager over a document with two changes.\<close>

definition twoChangeDoc :: "automergeSchema doc" where
  "twoChangeDoc =
     [\<lparr>hash = ''h1'', message = None, time = 1,
       snapshot = \<lparr>files = Some [(''/a.js'', ''1'')], metadata = None\<rparr>\<rparr>,
      \<lparr>hash = ''h2'', message = None, time = 2,
       snapshot = \<lparr>files = Some [(''/a.js'', ''2''), (''/b.js'', ''x'')], metadata = None\<rparr>\<rparr>]"

definition twoChangeManager :: sandboxManager where
  "twoChangeManager =
     \<lparr>handle = Some (DocHandle (Some twoChangeDoc)),
      files_m = [(''/a.js'', ''2''), (''/b.js'', ''x'')], dependencies_m = [], fs = Some []\<rparr>"

text \<open>A document as \<open>initPersistence\<close> and \<open>initSandpackMode\<close> make it: the empty first
  change of \<open>repo.create()\<close>, the change that assigns the empty \<open>files\<close> map, and the change
  that seeds the files. And a document one of whose files is called \<open>constructor\<close>.\<close>

definition persistedDoc :: "automergeSchema doc" where
  "persistedDoc =
     [\<lparr>hash = ''h0'', message = None, time = 0, snapshot = \<lparr>files = None, metadata = None\<rparr>\<rparr>,
      \<lparr>hash = ''h1'', message = None, time = 1,
       snapshot = \<lparr>files = Some [], metadata = None\<rparr>\<rparr>,
      \<lparr>hash = ''h2'', message = None, time = 2,
       snapshot = \<lparr>files = Some [(''/a.js'', ''x'')], metadata = None\<rparr>\<rparr>]"

definition persistedManager :: sandboxManager where
  "persistedManager =
     \<lparr>handle = Some (DocHandle (Some persistedDoc)),
      files_m = [(''/a.js'', ''x'')], dependencies_m = [], fs = Some []\<rparr>"

definition constructorDoc :: "automergeSchema doc" where
  "constructorDoc =
     [\<lparr>hash = ''h1'', message = None, time = 1,
       snapshot = \<lparr>files = Some [(''/a.js'', ''x'')], metadata = None\<rparr>\<rparr>,
      \<lparr>hash = ''h2'', message = None, time = 2,
       snapshot = \<lparr>files = Some [(''/a.js'', ''x''), (''constructor'', ''y'')],
                   metadata = None\<rparr>\<rparr>]"

definition constructorManager :: sandboxManager where
  "constructorManager =
     \<lparr>handle = Some (DocHandle (Some constructorDoc)),
      files_m = [(''/a.js'', ''x''), (''constructor'', ''y'')], dependencies_m = [],
      fs = Some []\<rparr>"






text \<open>A started watcher with one callback.\<close>

definition freshRuntime :: "nat watcherRuntime" where
  "freshRuntime =
     \<lparr>watcher = \<lparr>callbacks = [], intervalId = None, previousSnapshot = []\<rparr>,
      activeIntervals = [], timerCount = 0, delivered = []\<rparr>"

text \<open>Stand-ins for the platform's functions: a parser that knows the manifest
  \<open>{"dependencies":{}}\<close> only, a printer of the dependency table of a manifest, and no
  string that converts to an array length.\<close>

definition emptyDepsManifest :: string where
  "emptyDepsManifest = ''{'' @ [CHR 0x22] @ ''dependencies'' @ [CHR 0x22] @ '':{}}''"

definition sampleParse :: "string \<Rightarrow> json option" where
  "sampleParse s =
     (if s = emptyDepsManifest then Some (JsonObj [(''dependencies'', JsonObj [])]) else None)"

fun sampleVersion :: "json \<Rightarrow> string" where
  "sampleVersion (JsonStr s) = s"
| "sampleVersion v = ''?''"

definition sampleStringify :: "json \<Rightarrow> string" where
  "sampleStringify v =
     (case v of
        JsonObj props \<Rightarrow>
          (case map_of props ''dependencies'' of
             Some (JsonObj deps) \<Rightarrow>
               joinWith '','' (map (\<lambda>(n, d). n @ '':'' @ sampleVersion d) deps)
           | _ \<Rightarrow> [])
      | _ \<Rightarrow> [])"

definition samplePlatform :: platform where
  "samplePlatform =
     \<lparr>JSON_parse = sampleParse, JSON_stringify = sampleStringify,
      toArrayLength = (\<lambda>s. None)\<rparr>"





section \<open>Part II: properties\<close>

subsection \<open>Assignment to a path that starts with a slash\<close>

text \<open>A key that starts with a slash is neither \<open>__proto__\<close> nor an array index, so
  assigning to it updates an own key in place and appends a new one.\<close>

lemma update_new_key: "key \<notin> set (map fst obj) \<Longrightarrow> AList.update key v obj = obj @ [(key, v)]"
  by (induction obj) auto

lemma setProperty_slash:
  "setProperty (CHR ''/'' # rest) v obj = AList.update (CHR ''/'' # rest) v obj"
  by (simp add: setProperty_def isArrayIndex_def isDigit_def update_new_key)

subsection \<open>The poll-based watcher and its three categories\<close>

lemma in_keys_iff: "path \<in> set (map fst m) \<longleftrightarrow> map_of m path \<noteq> None"
  by (simp add: map_of_eq_None_iff)

lemma getProperty_own_key:
  "key \<notin> set objectPrototypeKeys
     \<Longrightarrow> getProperty obj key = (case map_of obj key of Some v \<Rightarrow> Own v | None \<Rightarrow> Missing)"
  by (simp add: getProperty_def)

lemma hasProperty_own_key:
  "key \<notin> set objectPrototypeKeys \<Longrightarrow> hasProperty obj key \<longleftrightarrow> map_of obj key \<noteq> None"
  by (simp add: hasProperty_def getProperty_def split: option.splits)

lemma hasProperty_inherited: "key \<in> set objectPrototypeKeys \<Longrightarrow> hasProperty obj key"
  by (simp add: hasProperty_def getProperty_def split: option.splits)

lemma batch_count:
  "length (filter (\<lambda>e. evtype e = t) (batch t' ps)) \<le> (if t = t' then 1 else 0)"
  by (simp add: batch_def)

lemma detectEvents_count: "length (filter (\<lambda>e. evtype e = t) (detectEvents prev cur)) \<le> 1"
proof -
  have a: "length (filter (\<lambda>e. evtype e = t) (batch Add (addedPaths prev cur)))
             \<le> (if t = Add then 1 else 0)"
    by (rule batch_count)
  have c: "length (filter (\<lambda>e. evtype e = t) (batch Change (changedPaths prev cur)))
             \<le> (if t = Change then 1 else 0)"
    by (rule batch_count)
  have r: "length (filter (\<lambda>e. evtype e = t) (batch Remove (removedPaths prev cur)))
             \<le> (if t = Remove then 1 else 0)"
    by (rule batch_count)
  show ?thesis
    unfolding detectEvents_def filter_append length_append
    using a c r by (cases t) simp_all
qed

text \<open>What a tick does, whatever the keys are: every registered callback is called with
  the events of the tick, at most one of each type and in the order \<open>add\<close>, \<open>change\<close>,
  \<open>remove\<close>, and the current map becomes the snapshot.\<close>

lemma detectChanges_events:
  "fst (detectChanges cur (w\<lparr>previousSnapshot := prev\<rparr>)) = w\<lparr>previousSnapshot := cur\<rparr>
   \<and> snd (detectChanges cur (w\<lparr>previousSnapshot := prev\<rparr>))
        = concat (map (\<lambda>event. map (\<lambda>callback. (callback, event)) (callbacks w))
                    (detectEvents prev cur))
   \<and> detectEvents prev cur =
        (if addedPaths prev cur = [] then [] else [WatchEvent Add (addedPaths prev cur)])
        @ (if changedPaths prev cur = [] then [] else [WatchEvent Change (changedPaths prev cur)])
        @ (if removedPaths prev cur = [] then [] else [WatchEvent Remove (removedPaths prev cur)])"
proof (intro conjI)
  show "fst (detectChanges cur (w\<lparr>previousSnapshot := prev\<rparr>)) = w\<lparr>previousSnapshot := cur\<rparr>"
    by (simp add: detectChanges_def)
  show "snd (detectChanges cur (w\<lparr>previousSnapshot := prev\<rparr>))
        = concat (map (\<lambda>event. map (\<lambda>callback. (callback, event)) (callbacks w))
                    (detectEvents prev cur))"
  proof -
    have "emit (w\<lparr>previousSnapshot := prev\<rparr>)
            = (\<lambda>event. map (\<lambda>callback. (callback, event)) (callbacks w))"
      by (simp add: fun_eq_iff emit_def)
    then show ?thesis by (simp add: detectChanges_def)
  qed
  show "detectEvents prev cur =
        (if addedPaths prev cur = [] then [] else [WatchEvent Add (addedPaths prev cur)])
        @ (if changedPaths prev cur = [] then [] else [WatchEvent Change (changedPaths prev cur)])
        @ (if removedPaths prev cur = [] then [] else [WatchEvent Remove (removedPaths prev cur)])"
    by (simp add: detectEvents_def batch_def)
qed

text \<open>The categories when no key of either map is the name of an inherited member: the
  added keys are the keys of the current map that the snapshot lacks, the changed keys are
  the keys of both with different values, the removed keys are the keys of the snapshot
  that the current map lacks.\<close>

lemma categories_of_own_keys:
  assumes "\<And>p. p \<in> set (map fst prev) \<union> set (map fst cur) \<Longrightarrow> p \<notin> set objectPrototypeKeys"
  shows "set (addedPaths prev cur) = dom (map_of cur) - dom (map_of prev)"
    and "set (changedPaths prev cur)
           = {p \<in> dom (map_of cur) \<inter> dom (map_of prev). map_of cur p \<noteq> map_of prev p}"
    and "set (removedPaths prev cur) = dom (map_of prev) - dom (map_of cur)"
proof -
  have own: "\<And>p obj. p \<in> set (map fst prev) \<union> set (map fst cur)
               \<Longrightarrow> hasProperty obj p \<longleftrightarrow> map_of (obj :: fileMap) p \<noteq> None"
    using assms by (simp add: hasProperty_own_key)
  have get: "\<And>p obj. p \<in> set (map fst prev) \<union> set (map fst cur)
               \<Longrightarrow> getProperty (obj :: fileMap) p
                     = (case map_of obj p of Some v \<Rightarrow> Own v | None \<Rightarrow> Missing)"
    using assms by (simp add: getProperty_own_key)
  show "set (addedPaths prev cur) = dom (map_of cur) - dom (map_of prev)"
  proof -
    have eq: "addedPaths prev cur = filter (\<lambda>path. map_of prev path = None) (map fst cur)"
      unfolding addedPaths_def by (rule filter_cong) (simp_all add: own)
    show ?thesis
      unfolding eq set_filter in_keys_iff by (auto simp: dom_def)
  qed
  show "set (changedPaths prev cur)
           = {p \<in> dom (map_of cur) \<inter> dom (map_of prev). map_of cur p \<noteq> map_of prev p}"
  proof -
    have eq: "changedPaths prev cur
            = filter (\<lambda>path. map_of prev path \<noteq> None \<and> map_of cur path \<noteq> map_of prev path)
                (map fst cur)"
      unfolding changedPaths_def
      by (rule filter_cong) (auto simp: own get split: option.splits)
    show ?thesis
      unfolding eq set_filter in_keys_iff by (auto simp: dom_def)
  qed
  show "set (removedPaths prev cur) = dom (map_of prev) - dom (map_of cur)"
  proof -
    have eq: "removedPaths prev cur = filter (\<lambda>path. map_of cur path = None) (map fst prev)"
      unfolding removedPaths_def by (rule filter_cong) (simp_all add: own)
    show ?thesis
      unfolding eq set_filter in_keys_iff by (auto simp: dom_def)
  qed
qed

lemma detectEvents_example:
  "detectEvents [(''a'', ''1'')] [(''a'', ''2''), (''b'', ''1'')]
     = [WatchEvent Add [''b''], WatchEvent Change [''a'']]"
  by (simp add: detectEvents_def batch_def addedPaths_def changedPaths_def removedPaths_def
        hasProperty_def getProperty_def objectPrototypeKeys_def)

text \<open>
  Claim C8 says that the added keys are the keys new in the current map and the removed
  keys are the keys no longer present, and that one event is emitted for each category
  that is not empty. With the empty snapshot and the current map \<open>{toString: "x"}\<close> the key
  \<open>toString\<close> is new, and the watcher, here one with a single registered callback, calls it
  with one \<open>change\<close> event for this key and with no \<open>add\<close> event. With the snapshot
  \<open>{constructor: "x"}\<close> and the empty current map the key is no longer present, and no event
  is emitted. In both cases the current map becomes the snapshot.
\<close>

theorem C8_inherited_names:
  "detectChanges [(''toString'', ''x'')]
       \<lparr>callbacks = [0 :: nat], intervalId = Some 1, previousSnapshot = []\<rparr>
     = (\<lparr>callbacks = [0], intervalId = Some 1, previousSnapshot = [(''toString'', ''x'')]\<rparr>,
        [(0, WatchEvent Change [''toString''])])
   \<and> detectChanges []
       \<lparr>callbacks = [0 :: nat], intervalId = Some 1, previousSnapshot = [(''constructor'', ''x'')]\<rparr>
     = (\<lparr>callbacks = [0], intervalId = Some 1, previousSnapshot = []\<rparr>, [])"
  by (simp add: detectChanges_def detectEvents_def batch_def addedPaths_def changedPaths_def
        removedPaths_def hasProperty_def getProperty_def objectPrototypeKeys_def emit_def)

subsection \<open>After \<open>stop()\<close> no old callback is called\<close>

lemma tick_delivered:
  "delivered (tick timer currentFiles rt)
     = delivered rt @ (if timer \<in> set (activeIntervals rt)
                       then concat (map (emit (watcher rt))
                              (detectEvents (previousSnapshot (watcher rt)) currentFiles))
                       else [])"
  by (simp add: tick_def detectChanges_def)

lemma tick_callbacks: "callbacks (watcher (tick timer currentFiles rt)) = callbacks (watcher rt)"
  by (simp add: tick_def detectChanges_def)

lemma start_delivered: "delivered (startWatcher fm rt) = delivered rt"
  by (simp add: startWatcher_def Let_def)

lemma start_callbacks: "callbacks (watcher (startWatcher fm rt)) = callbacks (watcher rt)"
  by (simp add: startWatcher_def Let_def)

lemma stop_delivered: "delivered (stopWatcher rt) = delivered rt"
  by (simp add: stopWatcher_def Let_def split: option.split)

lemma stop_callbacks: "callbacks (watcher (stopWatcher rt)) = []"
  by (simp add: stopWatcher_def Let_def split: option.split)

lemma register_delivered: "delivered (registerEventCallback cb rt) = delivered rt"
  by (simp add: registerEventCallback_def)

lemma register_callbacks:
  "callbacks (watcher (registerEventCallback cb rt)) = callbacks (watcher rt) @ [cb]"
  by (simp add: registerEventCallback_def)

lemma fst_emit: "fst ` set (concat (map (emit w) evs)) \<subseteq> set (callbacks w)"
  by (induction evs) (auto simp: emit_def)

lemma step_delivered:
  "\<exists>ds. delivered (step a rt) = delivered rt @ ds
        \<and> fst ` set ds \<subseteq> set (callbacks (watcher rt))"
proof (cases a)
  case (Start fm)
  then show ?thesis by (simp add: start_delivered)
next
  case Stop
  then show ?thesis by (simp add: stop_delivered)
next
  case (Register cb)
  then show ?thesis by (simp add: register_delivered)
next
  case (Tick timer currentFiles)
  show ?thesis
  proof (cases "timer \<in> set (activeIntervals rt)")
    case True
    have "delivered (step a rt) = delivered rt @ concat (map (emit (watcher rt))
            (detectEvents (previousSnapshot (watcher rt)) currentFiles))"
      using Tick True by (simp add: tick_delivered)
    then show ?thesis using fst_emit [of "watcher rt"] by blast
  next
    case False
    then show ?thesis using Tick by (simp add: tick_delivered)
  qed
qed

lemma step_callbacks:
  "set (callbacks (watcher (step a rt)))
     \<subseteq> set (callbacks (watcher rt)) \<union> set (registeredBy [a])"
  by (cases a) (simp_all add: start_callbacks stop_callbacks register_callbacks tick_callbacks)

lemma registeredBy_Cons:
  "set (registeredBy (a # acts)) = set (registeredBy [a]) \<union> set (registeredBy acts)"
  by (cases a) simp_all

lemma run_delivered:
  "\<exists>ds. delivered (run acts rt) = delivered rt @ ds
        \<and> fst ` set ds \<subseteq> set (callbacks (watcher rt)) \<union> set (registeredBy acts)"
proof (induction acts arbitrary: rt)
  case Nil
  then show ?case by (simp add: run_def)
next
  case (Cons a acts)
  from step_delivered [of a rt]
  obtain ds1 where d1: "delivered (step a rt) = delivered rt @ ds1"
    and c1: "fst ` set ds1 \<subseteq> set (callbacks (watcher rt))"
    by (elim exE conjE)
  from Cons.IH [of "step a rt"]
  obtain ds2 where d2: "delivered (run acts (step a rt)) = delivered (step a rt) @ ds2"
    and c2: "fst ` set ds2
               \<subseteq> set (callbacks (watcher (step a rt))) \<union> set (registeredBy acts)"
    by (elim exE conjE)
  have run_eq: "run (a # acts) rt = run acts (step a rt)"
    by (simp add: run_def)
  have d: "delivered (run (a # acts) rt) = delivered rt @ (ds1 @ ds2)"
    unfolding run_eq d2 d1 by simp
  have c2': "fst ` set ds2 \<subseteq> set (callbacks (watcher rt)) \<union> set (registeredBy (a # acts))"
  proof
    fix x assume "x \<in> fst ` set ds2"
    then have "x \<in> set (callbacks (watcher (step a rt))) \<union> set (registeredBy acts)"
      using c2 by (rule rev_subsetD)
    then show "x \<in> set (callbacks (watcher rt)) \<union> set (registeredBy (a # acts))"
      using step_callbacks [of a rt] unfolding registeredBy_Cons [of a acts] by auto
  qed
  have c1': "fst ` set ds1 \<subseteq> set (callbacks (watcher rt)) \<union> set (registeredBy (a # acts))"
    using c1 by (rule subset_trans) (rule Un_upper1)
  have c: "fst ` set (ds1 @ ds2)
      \<subseteq> set (callbacks (watcher rt)) \<union> set (registeredBy (a # acts))"
    unfolding set_append image_Un using c1' c2' by (rule Un_least)
  show ?case
    by (rule exI [of _ "ds1 @ ds2"]) (rule conjI [OF d c])
qed

lemma deliveredSince_stop:
  "fst ` set (deliveredSince (stopWatcher rt) (run acts (stopWatcher rt)))
     \<subseteq> set (registeredBy acts)"
proof -
  from run_delivered [of acts "stopWatcher rt"]
  obtain ds where d: "delivered (run acts (stopWatcher rt)) = delivered (stopWatcher rt) @ ds"
    and c: "fst ` set ds
              \<subseteq> set (callbacks (watcher (stopWatcher rt))) \<union> set (registeredBy acts)"
    by (elim exE conjE)
  have "deliveredSince (stopWatcher rt) (run acts (stopWatcher rt)) = ds"
    by (simp add: deliveredSince_def d)
  then show ?thesis using c by (simp add: stop_callbacks)
qed

lemma stop_start_cancels:
  "intervalId (watcher (stopWatcher (startWatcher fm rt))) = None
   \<and> Suc (timerCount rt) \<notin> set (activeIntervals (stopWatcher (startWatcher fm rt)))"
  by (simp add: startWatcher_def stopWatcher_def Let_def)

text \<open>
  Claim C10. \<open>stop()\<close> empties the callback list, and on a watcher that \<open>start()\<close> has
  just started it clears the interval handle and cancels the interval that \<open>start()\<close>
  created. After \<open>stop()\<close>, whatever happens next (timers firing while the file map has
  any content, further calls of \<open>start\<close>, \<open>stop\<close> and \<open>registerEventCallback\<close>), every
  event that is delivered goes to a callback registered after the stop: a callback that was
  registered before the stop and is not registered again receives no event.
\<close>

theorem C10_no_delivery_after_stop:
  "callbacks (watcher (stopWatcher rt)) = []
   \<and> intervalId (watcher (stopWatcher (startWatcher fm rt))) = None
   \<and> Suc (timerCount rt) \<notin> set (activeIntervals (stopWatcher (startWatcher fm rt)))
   \<and> (cb \<notin> set (registeredBy acts)
        \<longrightarrow> cb \<notin> fst ` set (deliveredSince (stopWatcher rt) (run acts (stopWatcher rt))))"
proof (intro conjI impI)
  show "callbacks (watcher (stopWatcher rt)) = []"
    by (rule stop_callbacks)
  show "intervalId (watcher (stopWatcher (startWatcher fm rt))) = None"
    using stop_start_cancels [of fm rt] by (rule conjunct1)
  show "Suc (timerCount rt) \<notin> set (activeIntervals (stopWatcher (startWatcher fm rt)))"
    using stop_start_cancels [of fm rt] by (rule conjunct2)
  assume "cb \<notin> set (registeredBy acts)"
  with deliveredSince_stop [of rt acts]
  show "cb \<notin> fst ` set (deliveredSince (stopWatcher rt) (run acts (stopWatcher rt)))"
    by (rule contra_subsetD)
qed

text \<open>A witness: callback 7 receives the change of \<open>a\<close> while the watcher runs, and
  nothing from the same tick and a later restart once the watcher was stopped.\<close>

theorem C10_witness:
  "(7::nat) \<notin> set (registeredBy [Tick 1 [(''a'', ''2'')], Start [], Register 8, Tick 2 [(''b'', ''2'')]])
   \<and> delivered (run [Tick 1 [(''a'', ''2'')]]
                  (registerEventCallback 7 (startWatcher [(''a'', ''1'')] freshRuntime)))
        = [(7, WatchEvent Change [''a''])]
   \<and> 7 \<notin> fst ` set (deliveredSince
         (stopWatcher (registerEventCallback 7 (startWatcher [(''a'', ''1'')] freshRuntime)))
         (run [Tick 1 [(''a'', ''2'')], Start [], Register 8, Tick 2 [(''b'', ''2'')]]
            (stopWatcher (registerEventCallback 7 (startWatcher [(''a'', ''1'')] freshRuntime)))))"
proof -
  let ?rt = "registerEventCallback (7::nat) (startWatcher [(''a'', ''1'')] freshRuntime)"
  let ?acts = "[Tick 1 [(''a'', ''2'')], Start [], Register (8::nat), Tick 2 [(''b'', ''2'')]]"
  have a: "7 \<notin> set (registeredBy ?acts)"
    by simp
  have b: "delivered (run [Tick 1 [(''a'', ''2'')]] ?rt) = [(7, WatchEvent Change [''a''])]"
    by (simp add: run_def tick_def startWatcher_def registerEventCallback_def freshRuntime_def
          detectChanges_def detectEvents_def batch_def addedPaths_def changedPaths_def
          hasProperty_def getProperty_def objectPrototypeKeys_def
          removedPaths_def emit_def Let_def)
  note th = C10_no_delivery_after_stop [of ?rt "[]" 7 ?acts]
  have imp: "7 \<notin> set (registeredBy ?acts)
      \<longrightarrow> 7 \<notin> fst ` set (deliveredSince (stopWatcher ?rt) (run ?acts (stopWatcher ?rt)))"
    by (rule conjunct2 [OF conjunct2 [OF conjunct2 [OF th]]])
  have c: "7 \<notin> fst ` set (deliveredSince (stopWatcher ?rt) (run ?acts (stopWatcher ?rt)))"
    by (rule mp [OF imp a])
  show ?thesis
    by (intro conjI a b c)
qed

subsection \<open>Binary writes are rejected\<close>

lemma ext_shape:
  "list_all (\<lambda>e. \<exists>r. e = CHR ''.'' # r \<and> CHR ''.'' \<notin> set r) BINARY_EXTENSIONS"
  by (simp add: BINARY_EXTENSIONS_def)

lemma toLowerChar_dot: "toLowerChar c = CHR ''.'' \<longleftrightarrow> c = CHR ''.''"
  by (auto simp: toLowerChar_def upperCaseLetters_def lowerCaseLetters_def split: option.splits if_splits)

lemma toLowerCase_dot_notin:
  "CHR ''.'' \<in> set (toLowerCase r) \<longleftrightarrow> CHR ''.'' \<in> set r"
proof -
  have "CHR ''.'' \<in> toLowerChar ` set r \<longleftrightarrow> (\<exists>c \<in> set r. toLowerChar c = CHR ''.'')"
    by (metis (no_types) image_iff)
  also have "\<dots> \<longleftrightarrow> CHR ''.'' \<in> set r"
    by (simp add: toLowerChar_dot)
  finally show ?thesis by (simp add: toLowerCase_def)
qed

lemma lastIndexOf_last_dot:
  assumes "CHR ''.'' \<notin> set r"
  shows "lastIndexOf (pre @ CHR ''.'' # r) CHR ''.'' = int (length pre)"
proof -
  have "takeWhile (\<lambda>x. x \<noteq> CHR ''.'') (rev r @ CHR ''.'' # rev pre) = rev r"
    using assms by (subst takeWhile_append2) auto
  then show ?thesis
    by (simp add: lastIndexOf_def)
qed

lemma slice_from_length: "slice (pre @ e) (int (length pre)) = e"
  by (simp add: slice_def)

lemma isBinaryPath_suffix:
  assumes "toLowerCase e \<in> set BINARY_EXTENSIONS"
  shows "isBinaryPath (pre @ e)"
proof -
  from assms ext_shape obtain r where r: "toLowerCase e = CHR ''.'' # r" "CHR ''.'' \<notin> set r"
    by (auto simp: list_all_iff)
  then obtain c e' where e: "e = c # e'" "toLowerChar c = CHR ''.''" "toLowerCase e' = r"
    by (cases e) (auto simp: toLowerCase_def)
  then have c: "c = CHR ''.''" by (simp add: toLowerChar_dot)
  have "CHR ''.'' \<notin> set e'"
    using r(2) e(3) toLowerCase_dot_notin [of e'] by simp
  then have "lastIndexOf (pre @ e) CHR ''.'' = int (length pre)"
    using e(1) c lastIndexOf_last_dot [of e' pre] by simp
  then have "slice (pre @ e) (lastIndexOf (pre @ e) CHR ''.'') = e"
    by (simp add: slice_from_length)
  then show ?thesis
    using assms by (simp add: isBinaryPath_def)
qed

lemma normalizePath_suffix: "\<exists>pre. normalizePath (stem @ e) = pre @ e"
proof (cases "startsWith (stem @ e) ''/''")
  case True
  then have "normalizePath (stem @ e) = stem @ e" by (simp add: normalizePath_def)
  then show ?thesis by blast
next
  case False
  then have "normalizePath (stem @ e) = (''/'' @ stem) @ e" by (simp add: normalizePath_def)
  then show ?thesis by blast
qed

lemma writeFile_binary_content: "writeFile cb path (Binary bytes) h = Inr h"
  by (simp add: writeFile_def)

lemma writeFile_binary_path:
  "isBinaryPath (normalizePath path) \<Longrightarrow> writeFile cb path (Text text) h = Inr h"
  by (simp add: writeFile_def)

lemma writeFile_binary_extension:
  assumes "toLowerCase e \<in> set BINARY_EXTENSIONS"
  shows "writeFile cb (stem @ e) (Text text) h = Inr h"
proof -
  obtain pre where "normalizePath (stem @ e) = pre @ e"
    using normalizePath_suffix [of stem e] by (elim exE)
  then have "isBinaryPath (normalizePath (stem @ e))"
    using isBinaryPath_suffix [OF assms, of pre] by simp
  then show ?thesis by (rule writeFile_binary_path)
qed

text \<open>
  Claim C6. For every path and every \<open>Uint8Array\<close> content, \<open>writeFile\<close> returns
  normally and leaves the host state, and with it the file map, as it was: no callback is
  called. The same holds for every string content written to a path that ends in an
  extension of \<open>BINARY_EXTENSIONS\<close>, in any letter case, for example
  \<open>writeFile('/x.png', 'text')\<close>.
\<close>

theorem C6_writeFile_rejects_binary:
  "writeFile cb path (Binary bytes) h = Inr h
   \<and> (toLowerCase e \<in> set BINARY_EXTENSIONS \<longrightarrow> writeFile cb (stem @ e) (Text text) h = Inr h)
   \<and> writeFile cb ''/x.png'' (Text ''text'') h = Inr h"
proof (intro conjI impI)
  show "writeFile cb path (Binary bytes) h = Inr h"
    by (rule writeFile_binary_content)
  show "writeFile cb (stem @ e) (Text text) h = Inr h" if "toLowerCase e \<in> set BINARY_EXTENSIONS"
    using that by (rule writeFile_binary_extension)
  have "toLowerCase ''.png'' \<in> set BINARY_EXTENSIONS"
    by (simp add: toLowerCase_def toLowerChar_def upperCaseLetters_def lowerCaseLetters_def BINARY_EXTENSIONS_def)
  then have "writeFile cb (''/x'' @ ''.png'') (Text ''text'') h = Inr h"
    by (rule writeFile_binary_extension)
  then show "writeFile cb ''/x.png'' (Text ''text'') h = Inr h"
    by simp
qed

text \<open>A witness on the test host: a string written to \<open>/photo.JPG\<close> changes nothing,
  while the same call on \<open>/App.js\<close> does write the file.\<close>

theorem C6_witness:
  "toLowerCase ''.JPG'' \<in> set BINARY_EXTENSIONS
   \<and> writeFile createTestAdapter (''/photo'' @ ''.JPG'') (Text ''binary data'') (testHostOf [])
        = Inr (testHostOf [])
   \<and> writeFile createTestAdapter ''/App.js'' (Text ''new content'') (testHostOf [])
        = Inr \<lparr>files_t = [(''/App.js'', ''new content'')], deletedPaths = [], latestDeps = []\<rparr>"
proof -
  have a: "toLowerCase ''.JPG'' \<in> set BINARY_EXTENSIONS"
    by (simp add: toLowerCase_def toLowerChar_def upperCaseLetters_def lowerCaseLetters_def BINARY_EXTENSIONS_def)
  note th = C6_writeFile_rejects_binary
    [of createTestAdapter "''/''" "[]" "testHostOf []" "''.JPG''" "''/photo''" "''binary data''"]
  have imp: "toLowerCase ''.JPG'' \<in> set BINARY_EXTENSIONS
      \<longrightarrow> writeFile createTestAdapter (''/photo'' @ ''.JPG'') (Text ''binary data'') (testHostOf [])
            = Inr (testHostOf [])"
    by (rule conjunct1 [OF conjunct2 [OF th]])
  have b: "writeFile createTestAdapter (''/photo'' @ ''.JPG'') (Text ''binary data'') (testHostOf [])
            = Inr (testHostOf [])"
    by (rule mp [OF imp a])
  have c: "writeFile createTestAdapter ''/App.js'' (Text ''new content'') (testHostOf [])
        = Inr \<lparr>files_t = [(''/App.js'', ''new content'')], deletedPaths = [], latestDeps = []\<rparr>"
    by (simp add: writeFile_def normalizePath_def startsWith_def isBinaryPath_def lastIndexOf_def
          slice_def toLowerCase_def toLowerChar_def upperCaseLetters_def lowerCaseLetters_def BINARY_EXTENSIONS_def createTestAdapter_def setProperty_slash
          testHostOf_def)
  show ?thesis by (intro conjI a b c)
qed

subsection \<open>Renaming files and directories\<close>

text \<open>The directory rename of the adapter's test suite gives the expected map.\<close>

lemma renameFile_directory_example:
  "files_t (renameFile createTestAdapter ''/src'' ''/lib''
              (testHostOf [(''/src/a.js'', ''a''), (''/src/b.js'', ''b'')]))
     = [(''/lib/a.js'', ''a''), (''/lib/b.js'', ''b'')]"
  by (simp add: renameFile_def moveChild_def normalizePath_def startsWith_def endsWith_def
        createTestAdapter_def setProperty_slash testHostOf_def)

text \<open>
  Claim C7 says that a rename whose old path is an exact key moves exactly that file to
  the new path with its content preserved, and that a directory rename rewrites every
  child to the corresponding path under the new prefix. \<open>renameFile\<close> writes the new
  path and then deletes the old one without comparing the two, so renaming a file onto its
  own path deletes it: on the map \<open>{"/a.js": "content"}\<close> the call
  \<open>renameFile('/a.js', '/a.js')\<close> leaves the empty map, where the claim keeps the file.
\<close>

theorem C7_rename_onto_itself_deletes:
  "files_t (renameFile createTestAdapter ''/a.js'' ''/a.js'' (testHostOf [(''/a.js'', ''content'')]))
     = []"
  by (simp add: renameFile_def normalizePath_def startsWith_def createTestAdapter_def setProperty_slash
        testHostOf_def)

text \<open>The directory branch has the same defect when the new prefix lies under the old
  one: the file moved first overwrites a file that is still to be moved, and the content
  \<open>B\<close> is lost.\<close>

lemma renameFile_nested_directory_example:
  "files_t (renameFile createTestAdapter ''/src'' ''/src/sub''
              (testHostOf [(''/src/a'', ''A''), (''/src/sub/a'', ''B'')]))
     = [(''/src/sub/sub/a'', ''A'')]"
  by (simp add: renameFile_def moveChild_def normalizePath_def startsWith_def endsWith_def
        createTestAdapter_def setProperty_slash testHostOf_def)

subsection \<open>The install command updates the manifest\<close>






























text \<open>
  A manifest whose text parses to \<open>null\<close> makes the install throw before any callback is
  called; nothing is persisted.
\<close>

lemma handleNpmInstall_null_manifest:
  "loadPackageJson pf (getFiles cb h) = JsonNull \<Longrightarrow> handleNpmInstall pf cb packagesStr h = Inl TypeError"
  by (simp add: handleNpmInstall_def)




subsection \<open>Starting a session: the guard and the retries\<close>






















subsection \<open>Restoring a snapshot\<close>

lemma removeStep_fold_map:
  "map_of (fst (fold (\<lambda>path (fm, ops). if \<not> truthy (getProperty snap path)
                                          then (AList.delete path fm, Suc ops) else (fm, ops))
                  ks (fm, n))) p
     = (if p \<in> set ks \<and> \<not> truthy (getProperty snap p) then None else map_of fm p)"
proof (induction ks arbitrary: fm n)
  case Nil
  then show ?case by simp
next
  case (Cons k ks)
  show ?case
  proof (cases "truthy (getProperty snap k)")
    case True
    then show ?thesis using Cons.IH [of fm n] by auto
  next
    case False
    then show ?thesis using Cons.IH [of "AList.delete k fm" "Suc n"]
      by (auto simp: delete_conv')
  qed
qed

lemma removeStep_fold_ops:
  "n \<le> snd (fold (\<lambda>path (fm, ops). if \<not> truthy (getProperty snap path)
                                      then (AList.delete path fm, Suc ops) else (fm, ops))
              ks (fm, n))
   \<and> (snd (fold (\<lambda>path (fm, ops). if \<not> truthy (getProperty snap path)
                                      then (AList.delete path fm, Suc ops) else (fm, ops))
              ks (fm, n)) = n
      \<longrightarrow> fst (fold (\<lambda>path (fm, ops). if \<not> truthy (getProperty snap path)
                                      then (AList.delete path fm, Suc ops) else (fm, ops))
              ks (fm, n)) = fm)"
proof (induction ks arbitrary: fm n)
  case Nil
  then show ?case by simp
next
  case (Cons k ks)
  show ?case
  proof (cases "truthy (getProperty snap k)")
    case True
    then show ?thesis using Cons.IH [of n fm] by simp
  next
    case False
    then show ?thesis using Cons.IH [of "Suc n" "AList.delete k fm"] by auto
  qed
qed

lemma upsertStep_fold_map:
  "distinct (map fst snap) \<Longrightarrow>
   map_of (fst (fold (\<lambda>(path, content) (fm, ops). if map_of fm path \<noteq> Some content
                                        then (AList.update path content fm, Suc ops)
                                        else (fm, ops))
                  snap (fm, n))) p
     = (case map_of snap p of Some c \<Rightarrow> Some c | None \<Rightarrow> map_of fm p)"
proof (induction snap arbitrary: fm n)
  case Nil
  then show ?case by simp
next
  case (Cons kv snap)
  obtain k v where kv: "kv = (k, v)" by (cases kv)
  have d: "distinct (map fst snap)" and k: "k \<notin> fst ` set snap"
    using Cons.prems kv by simp_all
  have none: "map_of snap k = None"
    using k by (simp add: map_of_eq_None_iff)
  show ?case
  proof (cases "map_of fm k = Some v")
    case True
    then show ?thesis using Cons.IH [OF d, of fm n] kv none
      by (auto split: option.splits)
  next
    case False
    then show ?thesis using Cons.IH [OF d, of "AList.update k v fm" "Suc n"] kv none
      by (auto simp: update_conv' split: option.splits)
  qed
qed

lemma upsertStep_fold_ops:
  "n \<le> snd (fold (\<lambda>(path, content) (fm, ops). if map_of fm path \<noteq> Some content
                                        then (AList.update path content fm, Suc ops)
                                        else (fm, ops))
              snap (fm, n))
   \<and> (snd (fold (\<lambda>(path, content) (fm, ops). if map_of fm path \<noteq> Some content
                                        then (AList.update path content fm, Suc ops)
                                        else (fm, ops))
              snap (fm, n)) = n
      \<longrightarrow> fst (fold (\<lambda>(path, content) (fm, ops). if map_of fm path \<noteq> Some content
                                        then (AList.update path content fm, Suc ops)
                                        else (fm, ops))
              snap (fm, n)) = fm)"
proof (induction snap arbitrary: fm n)
  case Nil
  then show ?case by simp
next
  case (Cons kv snap)
  obtain k v where kv: "kv = (k, v)" by (cases kv)
  show ?case
  proof (cases "map_of fm k = Some v")
    case True
    then show ?thesis using Cons.IH [of n fm] kv by simp
  next
    case False
    then show ?thesis using Cons.IH [of "Suc n" "AList.update k v fm"] kv by auto
  qed
qed

lemma removeMissing_map:
  "map_of (fst (removeMissing snap (fm, n))) p
     = (if truthy (getProperty snap p) then map_of fm p else None)"
  unfolding removeMissing_def fst_conv
  by (simp add: removeStep_fold_map map_of_eq_None_iff)

lemma removeMissing_ops:
  "n \<le> snd (removeMissing snap (fm, n))
   \<and> (snd (removeMissing snap (fm, n)) = n \<longrightarrow> fst (removeMissing snap (fm, n)) = fm)"
  unfolding removeMissing_def fst_conv by (rule removeStep_fold_ops)

lemma upsertFromSnapshot_map:
  "distinct (map fst snap) \<Longrightarrow>
   map_of (fst (upsertFromSnapshot snap (fm, n))) p
     = (case map_of snap p of Some c \<Rightarrow> Some c | None \<Rightarrow> map_of fm p)"
  unfolding upsertFromSnapshot_def by (rule upsertStep_fold_map)

lemma upsertFromSnapshot_ops:
  "n \<le> snd (upsertFromSnapshot snap (fm, n))
   \<and> (snd (upsertFromSnapshot snap (fm, n)) = n
        \<longrightarrow> fst (upsertFromSnapshot snap (fm, n)) = fm)"
  unfolding upsertFromSnapshot_def by (rule upsertStep_fold_ops)

lemma restoreCallback_result:
  assumes "files d = Some current" and "distinct (map fst snap)"
  shows "\<exists>fm ops. restoreCallback (Some snap) d = Inr (d\<lparr>files := Some fm\<rparr>, ops)
           \<and> map_of fm = restoredFiles snap current
           \<and> (ops = 0 \<longrightarrow> fm = current)"
proof -
  obtain fm1 n1 where r1: "removeMissing snap (current, 0) = (fm1, n1)"
    by (cases "removeMissing snap (current, 0)")
  obtain fm2 n2 where r2: "upsertFromSnapshot snap (fm1, n1) = (fm2, n2)"
    by (cases "upsertFromSnapshot snap (fm1, n1)")
  have m1: "map_of fm1 p = (if truthy (getProperty snap p) then map_of current p else None)" for p
    using removeMissing_map [of snap current 0 p] r1 by simp
  have m2: "map_of fm2 p = (case map_of snap p of Some c \<Rightarrow> Some c | None \<Rightarrow> map_of fm1 p)" for p
    using upsertFromSnapshot_map [OF assms(2), of fm1 n1 p] r2 by simp
  have "map_of fm2 p = restoredFiles snap current p" for p
    unfolding m2 m1 restoredFiles_def
    by (cases "map_of snap p") (simp_all add: truthy_def getProperty_def)
  then have a: "map_of fm2 = restoredFiles snap current" by (rule ext)
  have b: "fm2 = current" if "n2 = 0"
  proof -
    have "n1 \<le> n2" using upsertFromSnapshot_ops [of n1 snap fm1] r2 by simp
    then have n1: "n1 = 0" using that by simp
    have f2: "fm2 = fm1" using upsertFromSnapshot_ops [of n1 snap fm1] r2 n1 that by simp
    have f1: "fm1 = current" using removeMissing_ops [of 0 snap current] r1 n1 by simp
    show ?thesis unfolding f2 f1 ..
  qed
  have "restoreCallback (Some snap) d = Inr (d\<lparr>files := Some fm2\<rparr>, n2)"
    using assms(1) by (simp add: restoreCallback_def r1 r2)
  then show ?thesis using a b by blast
qed

lemma restoreCallback_throws:
  "files d = None \<or> snapshotFiles = None \<Longrightarrow> restoreCallback snapshotFiles d = Inl TypeError"
  by (auto simp: restoreCallback_def split: option.splits)

lemma currentRoot_nonempty: "doc \<noteq> [] \<Longrightarrow> currentRoot e doc = snapshot (last doc)"
  by (cases doc) (simp_all add: currentRoot_def)

lemma currentRoot_append: "currentRoot e (doc @ [st]) = snapshot st"
  by (simp add: currentRoot_nonempty)

lemma seed_handle: "handle (seedFilesToZenFS m) = handle m"
  by (simp add: seedFilesToZenFS_def split: option.splits)

lemma seed_files_m: "files_m (seedFilesToZenFS m) = files_m m"
  by (simp add: seedFilesToZenFS_def split: option.splits)

lemma commitChange_cases:
  "commitChange newHash changeTime msg result doc
     = (if snd result = 0 then doc
        else doc @ [\<lparr>hash = newHash, message = msg, time = changeTime, snapshot = fst result\<rparr>])"
  by (simp add: commitChange_def)

text \<open>What \<open>restoreSnapshot\<close> does to the document and to the manager's copy of the files
  when both the document and the snapshot have a file map; and that it throws when one of
  them has none.\<close>

lemma restoreSnapshot_returns:
  assumes "handle m = Some (DocHandle (Some doc))" and "find (\<lambda>st. hash st = h) doc = Some st"
    and "files (snapshot st) = Some snap"
    and "restoreCallback (Some snap) (currentRoot emptySchema doc) = Inr result"
  shows "\<exists>m'. restoreSnapshot pf newHash changeTime h m = Inr m'"
    and "restoreSnapshot pf newHash changeTime h m = Inr m'
           \<Longrightarrow> handle m' = Some (DocHandle (Some
                   (commitChange newHash changeTime (Some (revertMessage h)) result doc)))
               \<and> files_m m' = snap"
proof -
  show "\<exists>m'. restoreSnapshot pf newHash changeTime h m = Inr m'"
    using assms by (simp add: restoreSnapshot_def Let_def)
  show "handle m' = Some (DocHandle (Some
                   (commitChange newHash changeTime (Some (revertMessage h)) result doc)))
               \<and> files_m m' = snap"
    if "restoreSnapshot pf newHash changeTime h m = Inr m'"
    using that assms
    by (auto simp: restoreSnapshot_def Let_def seed_handle seed_files_m split: option.splits)
qed

lemma restoreSnapshot_result:
  assumes "handle m = Some (DocHandle (Some doc))" and "find (\<lambda>st. hash st = h) doc = Some st"
    and "files (currentRoot emptySchema doc) = Some current"
    and "files (snapshot st) = Some snap" and "distinct (map fst snap)"
  shows "\<exists>m' fm ops. restoreSnapshot pf newHash changeTime h m = Inr m'
           \<and> handle m' = Some (DocHandle (Some
                (commitChange newHash changeTime (Some (revertMessage h))
                   ((currentRoot emptySchema doc)\<lparr>files := Some fm\<rparr>, ops) doc)))
           \<and> map_of fm = restoredFiles snap current
           \<and> (ops = 0 \<longrightarrow> fm = current)
           \<and> files_m m' = snap"
proof -
  obtain fm ops where r: "restoreCallback (Some snap) (currentRoot emptySchema doc)
                            = Inr ((currentRoot emptySchema doc)\<lparr>files := Some fm\<rparr>, ops)"
    and f: "map_of fm = restoredFiles snap current" and n: "ops = 0 \<longrightarrow> fm = current"
    using restoreCallback_result [OF assms(3,5)] by (elim exE conjE)
  obtain m' where m': "restoreSnapshot pf newHash changeTime h m = Inr m'"
    using restoreSnapshot_returns(1) [OF assms(1,2,4) r, of pf newHash changeTime] by (elim exE)
  have "handle m' = Some (DocHandle (Some
                (commitChange newHash changeTime (Some (revertMessage h))
                   ((currentRoot emptySchema doc)\<lparr>files := Some fm\<rparr>, ops) doc)))
          \<and> files_m m' = snap"
    using assms(1,2,4) r m' by (rule restoreSnapshot_returns(2))
  then show ?thesis
    using m' f n by (intro exI [of _ m'] exI [of _ fm] exI [of _ ops]) simp
qed

lemma restoreSnapshot_throws:
  assumes "handle m = Some (DocHandle (Some doc))" and "find (\<lambda>st. hash st = h) doc = Some st"
    and "files (currentRoot emptySchema doc) = None \<or> files (snapshot st) = None"
  shows "restoreSnapshot pf newHash changeTime h m = Inl (CallbackThrows TypeError)"
  using assms(1,2) restoreCallback_throws [OF assms(3)]
  by (simp add: restoreSnapshot_def)

lemma restoredFiles_own_keys:
  assumes "\<forall>p\<in>set objectPrototypeKeys. map_of current p \<noteq> None \<longrightarrow> map_of snap p \<noteq> None"
  shows "restoredFiles snap current = map_of snap"
proof
  fix p
  show "restoredFiles snap current p = map_of snap p"
    using assms by (cases "map_of snap p") (auto simp: restoredFiles_def)
qed

text \<open>When no current file that the snapshot lacks is named like an inherited member,
  and both the document and the snapshot have a file map, \<open>restoreSnapshot\<close> leaves the
  files of the document equal, as a map, to the files of the snapshot, by at most one new
  change at the end of the history.\<close>

lemma restoreSnapshot_own_keys:
  assumes "handle m = Some (DocHandle (Some doc))" and "find (\<lambda>st. hash st = h) doc = Some st"
    and "files (currentRoot emptySchema doc) = Some current"
    and "files (snapshot st) = Some snap" and "distinct (map fst snap)"
    and "\<forall>p\<in>set objectPrototypeKeys. map_of current p \<noteq> None \<longrightarrow> map_of snap p \<noteq> None"
  shows "\<exists>m' doc' fm. restoreSnapshot pf newHash changeTime h m = Inr m'
           \<and> handle m' = Some (DocHandle (Some doc'))
           \<and> files (currentRoot emptySchema doc') = Some fm \<and> map_of fm = map_of snap
           \<and> (doc' = doc
                \<or> doc' = doc @ [\<lparr>hash = newHash, message = Some (revertMessage h),
                                   time = changeTime,
                                   snapshot = (currentRoot emptySchema doc)\<lparr>files := Some fm\<rparr>\<rparr>])
           \<and> files_m m' = snap"
proof -
  obtain m' fm ops where m': "restoreSnapshot pf newHash changeTime h m = Inr m'"
    and hd: "handle m' = Some (DocHandle (Some
                (commitChange newHash changeTime (Some (revertMessage h))
                   ((currentRoot emptySchema doc)\<lparr>files := Some fm\<rparr>, ops) doc)))"
    and f: "map_of fm = restoredFiles snap current" and n: "ops = 0 \<longrightarrow> fm = current"
    and fm: "files_m m' = snap"
    using restoreSnapshot_result [OF assms(1-5), of pf newHash changeTime] by (elim exE conjE)
  have f': "map_of fm = map_of snap"
    unfolding f using assms(6) by (rule restoredFiles_own_keys)
  show ?thesis
  proof (cases "ops = 0")
    case True
    then have "fm = current" using n by simp
    then show ?thesis
      using m' hd f' fm assms(3) True
      by (intro exI [of _ m'] exI [of _ doc] exI [of _ fm]) (simp add: commitChange_cases)
  next
    case False
    then show ?thesis
      using m' hd f' fm
      by (intro exI [of _ m']
            exI [of _ "doc @ [\<lparr>hash = newHash, message = Some (revertMessage h),
                                time = changeTime,
                                snapshot = (currentRoot emptySchema doc)\<lparr>files := Some fm\<rparr>\<rparr>]"]
            exI [of _ fm])
         (simp add: commitChange_cases currentRoot_append)
  qed
qed

text \<open>
  Claim C2 says that for every hash in the history \<open>restoreSnapshot\<close> leaves the files of
  the document exactly equal to the file map of that snapshot, every key absent from the
  snapshot being deleted, by a new forward change.

  The history of a document made by \<open>initPersistence\<close> starts with the empty change of
  \<open>repo.create()\<close>, and \<open>getHistory\<close> lists it. Its snapshot has no file map, and
  \<open>restoreSnapshot\<close> of its hash throws a \<open>TypeError\<close> inside the change callback; the
  document and the manager stay as they were.

  In the document whose files are \<open>/a.js\<close> and \<open>constructor\<close>, and whose first snapshot has
  \<open>/a.js\<close> only, the key \<open>constructor\<close> is absent from that snapshot. \<open>restoreSnapshot\<close> of
  the first hash does not delete it, because the lookup \<open>snapshotFiles['constructor']\<close>
  finds the inherited member: the callback makes no operation, the document keeps both
  files and gets no new change, while the manager's own file map becomes the snapshot's.
\<close>

theorem C2_restoreSnapshot_fails:
  "map oid (getHistory persistedManager) = [''h0'', ''h1'', ''h2'']
   \<and> restoreSnapshot samplePlatform ''h3'' 3 ''h0'' persistedManager
       = Inl (CallbackThrows TypeError)
   \<and> files (currentRoot emptySchema constructorDoc)
       = Some [(''/a.js'', ''x''), (''constructor'', ''y'')]
   \<and> files (snapshot (hd constructorDoc)) = Some [(''/a.js'', ''x'')]
   \<and> restoreSnapshot samplePlatform ''h3'' 3 ''h1'' constructorManager
       = Inr \<lparr>handle = Some (DocHandle (Some constructorDoc)), files_m = [(''/a.js'', ''x'')],
              dependencies_m = [], fs = Some [(''/a.js'', ''x'')]\<rparr>"
proof (intro conjI)
  show "map oid (getHistory persistedManager) = [''h0'', ''h1'', ''h2'']"
    by (simp add: getHistory_def persistedManager_def persistedDoc_def historyEntryOf_def)
  show "restoreSnapshot samplePlatform ''h3'' 3 ''h0'' persistedManager
          = Inl (CallbackThrows TypeError)"
    by (simp add: restoreSnapshot_def persistedManager_def persistedDoc_def restoreCallback_def
          currentRoot_def)
  show "files (currentRoot emptySchema constructorDoc)
          = Some [(''/a.js'', ''x''), (''constructor'', ''y'')]"
    by (simp add: constructorDoc_def currentRoot_def)
  show "files (snapshot (hd constructorDoc)) = Some [(''/a.js'', ''x'')]"
    by (simp add: constructorDoc_def)
  show "restoreSnapshot samplePlatform ''h3'' 3 ''h1'' constructorManager
       = Inr \<lparr>handle = Some (DocHandle (Some constructorDoc)), files_m = [(''/a.js'', ''x'')],
              dependencies_m = [], fs = Some [(''/a.js'', ''x'')]\<rparr>"
    by (simp add: restoreSnapshot_def constructorManager_def constructorDoc_def
          restoreCallback_def removeMissing_def upsertFromSnapshot_def truthy_def
          getProperty_def objectPrototypeKeys_def currentRoot_def commitChange_def
          seedFilesToZenFS_def Let_def)
qed

subsection \<open>The safety snapshot before a restore\<close>

text \<open>
  Claim C3 says that after \<open>restoreSnapshot(id)\<close> the history contains a snapshot that was
  taken automatically immediately before the restore. \<open>restoreSnapshot\<close> takes no
  snapshot: on a document with the two changes \<open>h1\<close> and \<open>h2\<close>, in which no snapshot was
  ever taken, \<open>restoreSnapshot(h1)\<close> adds the revert change and nothing else, so the
  history holds the two old changes and the revert.
\<close>

theorem C3_restoreSnapshot_counterexample:
  "map_sum id getHistory (restoreSnapshot samplePlatform ''h3'' 3 ''h1'' twoChangeManager)
     = Inr (getHistory twoChangeManager
              @ [\<lparr>oid = ''h3'', message_e = ''Revert to h1'', timestamp = 3,
                  author = ''Onlook User'', files_e = Some [(''/a.js'', ''1'')]\<rparr>])"
  by (simp add: restoreSnapshot_def twoChangeManager_def twoChangeDoc_def
        restoreCallback_def removeMissing_def upsertFromSnapshot_def truthy_def
        getProperty_def objectPrototypeKeys_def currentRoot_def commitChange_def
        seedFilesToZenFS_def Let_def getHistory_def historyEntryOf_def revertMessage_def)

lemma snapshotCallback_fresh:
  assumes "metadata d \<noteq> Some \<lparr>lastSnapshot = Some now\<rparr>"
  shows "snd (snapshotCallback now d) \<noteq> 0 \<and> files (fst (snapshotCallback now d)) = files d"
proof (cases "metadata d")
  case None
  then show ?thesis by (simp add: snapshotCallback_def)
next
  case (Some md)
  then have "lastSnapshot md \<noteq> Some now"
    using assms by (cases md) auto
  then show ?thesis using Some by (simp add: snapshotCallback_def)
qed

lemma createSnapshot_fresh:
  assumes "handle m = Some (DocHandle (Some doc))"
    and "metadata (currentRoot emptySchema doc) \<noteq> Some \<lparr>lastSnapshot = Some now\<rparr>"
  shows "createSnapshot saveHash saveTime now saveMessage m
           = Inr (m\<lparr>handle := Some (DocHandle (Some (doc
               @ [\<lparr>hash = saveHash, message = Some saveMessage, time = saveTime,
                   snapshot = fst (snapshotCallback now (currentRoot emptySchema doc))\<rparr>])))\<rparr>)"
  using assms(1) snapshotCallback_fresh [OF assms(2)]
  by (simp add: createSnapshot_def commitChange_def)

lemma find_append_Some: "find P xs = Some x \<Longrightarrow> find P (xs @ ys) = Some x"
  by (induction xs) (auto split: if_splits)

lemma historyEntryOf_revert:
  "historyEntryOf \<lparr>hash = revertHash, message = Some (revertMessage h), time = changeTime,
                    snapshot = root'\<rparr>
     = \<lparr>oid = revertHash, message_e = revertMessage h, timestamp = changeTime,
        author = ''Onlook User'', files_e = files root'\<rparr>"
  by (simp add: historyEntryOf_def revertMessage_def)

lemma getHistory_handle:
  "handle m = Some (DocHandle (Some doc)) \<Longrightarrow> getHistory m = map historyEntryOf doc"
  by (simp add: getHistory_def)

text \<open>
  Claim C3, amended. The snapshot before the restore is taken by \<open>checkoutAndSave\<close>, which
  calls \<open>createSnapshot\<close> and then \<open>restoreSnapshot\<close>. Let the handle hold a document whose
  history contains a change with hash \<open>h\<close>, and let the clock reading \<open>now\<close> differ from
  the stamp of the last snapshot (a stamp equal to the last one is no operation, and then
  no change is made). After \<open>checkoutAndSave(h, saveMessage)\<close> the old history is followed
  by the snapshot entry \<open>safety\<close>: its message is \<open>saveMessage\<close> (\<open>No message\<close> if that is
  empty) and its files are the files as they were before the call.

  (1) When the document and the snapshot of \<open>h\<close> both have a file map, the call returns
  normally, and the snapshot entry either ends the history, which happens only when the
  files already were what the restore leaves, or is directly followed by the revert
  change, whose files are what the restore leaves. (2) When one of them has no file map,
  the restore throws; the snapshot entry is in place and ends the history. (3) What the
  restore leaves is the file map of the snapshot whenever no current file that the
  snapshot lacks is named like an inherited member.
\<close>

theorem C3_checkoutAndSave:
  assumes "handle m = Some (DocHandle (Some doc))"
    and "find (\<lambda>st. hash st = h) doc = Some st"
    and "metadata (currentRoot emptySchema doc) \<noteq> Some \<lparr>lastSnapshot = Some now\<rparr>"
    and "safety = \<lparr>oid = saveHash,
                    message_e = (if saveMessage = [] then ''No message'' else saveMessage),
                    timestamp = saveTime, author = ''Onlook User'',
                    files_e = files (currentRoot emptySchema doc)\<rparr>"
    and "res = checkoutAndSave pf saveHash saveTime now revertHash revertTime h saveMessage m"
  shows
    "(files (currentRoot emptySchema doc) = Some current \<and> files (snapshot st) = Some snap
        \<and> distinct (map fst snap)
      \<longrightarrow> snd res = None
          \<and> (getHistory (fst res) = getHistory m @ [safety]
                \<and> map_of current = restoredFiles snap current
              \<or> (\<exists>fm. getHistory (fst res)
                         = getHistory m
                           @ [safety,
                              \<lparr>oid = revertHash, message_e = revertMessage h,
                               timestamp = revertTime, author = ''Onlook User'',
                               files_e = Some fm\<rparr>]
                       \<and> map_of fm = restoredFiles snap current)))
     \<and> (files (currentRoot emptySchema doc) = None \<or> files (snapshot st) = None
      \<longrightarrow> snd res = Some (CallbackThrows TypeError)
          \<and> getHistory (fst res) = getHistory m @ [safety])
     \<and> ((\<forall>p\<in>set objectPrototypeKeys. map_of current p \<noteq> None \<longrightarrow> map_of snap p \<noteq> None)
      \<longrightarrow> restoredFiles snap current = map_of snap)"
proof (intro conjI impI)
  let ?root1 = "fst (snapshotCallback now (currentRoot emptySchema doc))"
  let ?st1 = "\<lparr>hash = saveHash, message = Some saveMessage, time = saveTime, snapshot = ?root1\<rparr>"
  let ?doc1 = "doc @ [?st1]"
  let ?m1 = "m\<lparr>handle := Some (DocHandle (Some ?doc1))\<rparr>"
  have cs: "createSnapshot saveHash saveTime now saveMessage m = Inr ?m1"
    using assms(1,3) by (rule createSnapshot_fresh)
  have h1: "handle ?m1 = Some (DocHandle (Some ?doc1))" by simp
  have f1: "find (\<lambda>st. hash st = h) ?doc1 = Some st"
    using assms(2) by (rule find_append_Some)
  have root1: "currentRoot emptySchema ?doc1 = ?root1"
    by (simp add: currentRoot_append)
  have files1: "files ?root1 = files (currentRoot emptySchema doc)"
    using snapshotCallback_fresh [OF assms(3)] by simp
  have se: "historyEntryOf ?st1 = safety"
    unfolding assms(4) using files1 by (simp add: historyEntryOf_def)
  have g0: "getHistory m = map historyEntryOf doc"
    using assms(1) by (rule getHistory_handle)
  have g1: "getHistory ?m1 = getHistory m @ [safety]"
    unfolding g0 using getHistory_handle [OF h1] by (simp add: se)
  {
    assume a: "files (currentRoot emptySchema doc) = Some current \<and> files (snapshot st) = Some snap
        \<and> distinct (map fst snap)"
    have c1: "files (currentRoot emptySchema ?doc1) = Some current"
      unfolding root1 files1 using a by simp
    obtain m' fm ops where m': "restoreSnapshot pf revertHash revertTime h ?m1 = Inr m'"
      and hd: "handle m' = Some (DocHandle (Some
                  (commitChange revertHash revertTime (Some (revertMessage h))
                     ((currentRoot emptySchema ?doc1)\<lparr>files := Some fm\<rparr>, ops) ?doc1)))"
      and f: "map_of fm = restoredFiles snap current" and n: "ops = 0 \<longrightarrow> fm = current"
      using restoreSnapshot_result [OF h1 f1 c1 a [THEN conjunct2, THEN conjunct1]
              a [THEN conjunct2, THEN conjunct2], of pf revertHash revertTime]
      by (elim exE conjE)
    have res: "res = (m', None)"
      unfolding assms(5) by (simp add: checkoutAndSave_def cs m')
    show "snd res = None" unfolding res by simp
    show "getHistory (fst res) = getHistory m @ [safety]
            \<and> map_of current = restoredFiles snap current
          \<or> (\<exists>fm. getHistory (fst res)
                     = getHistory m
                       @ [safety,
                          \<lparr>oid = revertHash, message_e = revertMessage h,
                           timestamp = revertTime, author = ''Onlook User'',
                           files_e = Some fm\<rparr>]
                   \<and> map_of fm = restoredFiles snap current)"
    proof (cases "ops = 0")
      case True
      then have "handle m' = Some (DocHandle (Some ?doc1))"
        using hd by (simp add: commitChange_cases)
      then have "getHistory m' = map historyEntryOf ?doc1"
        by (rule getHistory_handle)
      then have "getHistory m' = getHistory m @ [safety]"
        unfolding g0 by (simp add: se)
      moreover have "map_of current = restoredFiles snap current"
        using True n f by simp
      ultimately show ?thesis unfolding res by simp
    next
      case False
      then have "handle m' = Some (DocHandle (Some (?doc1
                   @ [\<lparr>hash = revertHash, message = Some (revertMessage h), time = revertTime,
                       snapshot = (currentRoot emptySchema ?doc1)\<lparr>files := Some fm\<rparr>\<rparr>])))"
        using hd by (simp add: commitChange_cases)
      then have "getHistory m'
                   = map historyEntryOf (?doc1
                   @ [\<lparr>hash = revertHash, message = Some (revertMessage h), time = revertTime,
                       snapshot = (currentRoot emptySchema ?doc1)\<lparr>files := Some fm\<rparr>\<rparr>])"
        by (rule getHistory_handle)
      then have "getHistory m'
                   = getHistory m
                     @ [safety,
                        \<lparr>oid = revertHash, message_e = revertMessage h,
                         timestamp = revertTime, author = ''Onlook User'',
                         files_e = Some fm\<rparr>]"
        unfolding g0 by (simp add: se historyEntryOf_revert)
      then show ?thesis unfolding res using f by auto
    qed
  next
    assume a: "files (currentRoot emptySchema doc) = None \<or> files (snapshot st) = None"
    have "files (currentRoot emptySchema ?doc1) = None \<or> files (snapshot st) = None"
      unfolding root1 files1 using a .
    then have "restoreSnapshot pf revertHash revertTime h ?m1 = Inl (CallbackThrows TypeError)"
      using h1 f1 by (intro restoreSnapshot_throws)
    then have res: "res = (?m1, Some (CallbackThrows TypeError))"
      unfolding assms(5) by (simp add: checkoutAndSave_def cs)
    show "snd res = Some (CallbackThrows TypeError)" unfolding res by simp
    show "getHistory (fst res) = getHistory m @ [safety]"
      unfolding res fst_conv by (rule g1)
  next
    assume "\<forall>p\<in>set objectPrototypeKeys. map_of current p \<noteq> None \<longrightarrow> map_of snap p \<noteq> None"
    then show "restoredFiles snap current = map_of snap"
      by (rule restoredFiles_own_keys)
  }
qed

text \<open>A witness: the document with two changes checked out at its first change, which
  gives the snapshot entry followed by the revert change; and the document that starts
  with an empty change checked out at that change, where the restore throws after the
  snapshot was taken.\<close>

theorem C3_witness:
  "snd (checkoutAndSave samplePlatform ''h3'' 3 1700 ''h4'' 4 ''h1'' ''Backup before checkout''
          twoChangeManager) = None
   \<and> getHistory (fst (checkoutAndSave samplePlatform ''h3'' 3 1700 ''h4'' 4 ''h1''
                         ''Backup before checkout'' twoChangeManager))
     = getHistory twoChangeManager
       @ [\<lparr>oid = ''h3'', message_e = ''Backup before checkout'', timestamp = 3,
           author = ''Onlook User'', files_e = Some [(''/a.js'', ''2''), (''/b.js'', ''x'')]\<rparr>,
          \<lparr>oid = ''h4'', message_e = ''Revert to h1'', timestamp = 4,
           author = ''Onlook User'', files_e = Some [(''/a.js'', ''1'')]\<rparr>]
   \<and> snd (checkoutAndSave samplePlatform ''h3'' 3 1700 ''h4'' 4 ''h0'' ''Backup before checkout''
            persistedManager) = Some (CallbackThrows TypeError)
   \<and> getHistory (fst (checkoutAndSave samplePlatform ''h3'' 3 1700 ''h4'' 4 ''h0''
                         ''Backup before checkout'' persistedManager))
     = getHistory persistedManager
       @ [\<lparr>oid = ''h3'', message_e = ''Backup before checkout'', timestamp = 3,
           author = ''Onlook User'', files_e = Some [(''/a.js'', ''x'')]\<rparr>]"
proof -
  let ?res2 = "checkoutAndSave samplePlatform ''h3'' 3 1700 ''h4'' 4 ''h1''
                 ''Backup before checkout'' twoChangeManager"
  let ?resP = "checkoutAndSave samplePlatform ''h3'' 3 1700 ''h4'' 4 ''h0''
                 ''Backup before checkout'' persistedManager"
  have a2: "handle twoChangeManager = Some (DocHandle (Some twoChangeDoc))"
    by (simp add: twoChangeManager_def)
  have b2: "find (\<lambda>st. hash st = ''h1'') twoChangeDoc = Some (hd twoChangeDoc)"
    by (simp add: twoChangeDoc_def)
  have c2: "metadata (currentRoot emptySchema twoChangeDoc) \<noteq> Some \<lparr>lastSnapshot = Some 1700\<rparr>"
    by (simp add: twoChangeDoc_def currentRoot_def)
  note th2 = C3_checkoutAndSave [OF a2 b2 c2 refl refl,
      where current = "[(''/a.js'', ''2''), (''/b.js'', ''x'')]" and snap = "[(''/a.js'', ''1'')]"]
  have f2: "files (currentRoot emptySchema twoChangeDoc) = Some [(''/a.js'', ''2''), (''/b.js'', ''x'')]
        \<and> files (snapshot (hd twoChangeDoc)) = Some [(''/a.js'', ''1'')]
        \<and> distinct (map fst [(''/a.js'', ''1'')])"
    by (simp add: twoChangeDoc_def currentRoot_def)
  have r1: "snd ?res2 = None"
    using th2 [THEN conjunct1, THEN mp, OF f2] by (rule conjunct1)
  have r2: "getHistory (fst ?res2)
     = getHistory twoChangeManager
       @ [\<lparr>oid = ''h3'', message_e = ''Backup before checkout'', timestamp = 3,
           author = ''Onlook User'', files_e = Some [(''/a.js'', ''2''), (''/b.js'', ''x'')]\<rparr>,
          \<lparr>oid = ''h4'', message_e = ''Revert to h1'', timestamp = 4,
           author = ''Onlook User'', files_e = Some [(''/a.js'', ''1'')]\<rparr>]"
    by (simp add: checkoutAndSave_def createSnapshot_def snapshotCallback_def
          restoreSnapshot_def twoChangeManager_def twoChangeDoc_def
          restoreCallback_def removeMissing_def upsertFromSnapshot_def truthy_def
          getProperty_def objectPrototypeKeys_def currentRoot_def commitChange_def
          seedFilesToZenFS_def Let_def getHistory_def historyEntryOf_def revertMessage_def
          emptySchema_def)
  have aP: "handle persistedManager = Some (DocHandle (Some persistedDoc))"
    by (simp add: persistedManager_def)
  have bP: "find (\<lambda>st. hash st = ''h0'') persistedDoc = Some (hd persistedDoc)"
    by (simp add: persistedDoc_def)
  have cP: "metadata (currentRoot emptySchema persistedDoc) \<noteq> Some \<lparr>lastSnapshot = Some 1700\<rparr>"
    by (simp add: persistedDoc_def currentRoot_def)
  note thP = C3_checkoutAndSave [OF aP bP cP refl refl]
  have fP: "files (currentRoot emptySchema persistedDoc) = None
              \<or> files (snapshot (hd persistedDoc)) = None"
    by (simp add: persistedDoc_def)
  note p = thP [THEN conjunct2, THEN conjunct1, THEN mp, OF fP]
  have p1: "snd ?resP = Some (CallbackThrows TypeError)"
    using p by (rule conjunct1)
  have p2: "getHistory (fst ?resP)
     = getHistory persistedManager
       @ [\<lparr>oid = ''h3'', message_e = ''Backup before checkout'', timestamp = 3,
           author = ''Onlook User'', files_e = Some [(''/a.js'', ''x'')]\<rparr>]"
    using p [THEN conjunct2] by (simp add: persistedDoc_def currentRoot_def)
  show ?thesis by (intro conjI r1 r2 p1 p2)
qed

subsection \<open>Undo and redo on empty stacks\<close>

text \<open>
  Claim C9. \<open>undo()\<close> on an empty undo stack, and \<open>redo()\<close> on an empty redo stack,
  return normally and leave the manager (both stacks, the last known heads and the flag)
  and the document as they were.
\<close>

theorem C9_empty_stack_noop:
  "(undoStack m = [] \<longrightarrow> undo diff newHash changeTime (m, h) = (m, h))
   \<and> (redoStack m = [] \<longrightarrow> redo diff newHash changeTime (m, h) = (m, h))"
  by (simp add: undo_def redo_def)

text \<open>A witness: a manager that was just constructed has two empty stacks.\<close>

theorem C9_witness:
  "undoStack (fst (newUndoRedoManager (DocHandle (Some oneFileDoc)))) = []
   \<and> redoStack (fst (newUndoRedoManager (DocHandle (Some oneFileDoc)))) = []
   \<and> undo textDiff ''h3'' 3 (newUndoRedoManager (DocHandle (Some oneFileDoc)))
        = newUndoRedoManager (DocHandle (Some oneFileDoc))
   \<and> redo textDiff ''h3'' 3 (newUndoRedoManager (DocHandle (Some oneFileDoc)))
        = newUndoRedoManager (DocHandle (Some oneFileDoc))"
proof -
  let ?m = "fst (newUndoRedoManager (DocHandle (Some oneFileDoc)))"
  let ?h = "DocHandle (Some oneFileDoc)"
  have sys: "newUndoRedoManager ?h = (?m, ?h)"
    by (simp add: newUndoRedoManager_def)
  have a: "undoStack ?m = []" and b: "redoStack ?m = []"
    by (simp_all add: newUndoRedoManager_def)
  note th = C9_empty_stack_noop [of ?m textDiff "''h3''" 3 ?h]
  have c: "undo textDiff ''h3'' 3 (?m, ?h) = (?m, ?h)"
    by (rule th [THEN conjunct1, THEN mp, OF a])
  have d: "redo textDiff ''h3'' 3 (?m, ?h) = (?m, ?h)"
    by (rule th [THEN conjunct2, THEN mp, OF b])
  show ?thesis
    using a b c d unfolding sys [symmetric] by (intro conjI)
qed

subsection \<open>Undoing an edit of a text\<close>

text \<open>A \<open>del\<close> patch whose path leads into a text leaf changes nothing: the navigation
  loop arrives at the string, which is neither an array nor an object.\<close>

lemma delAt_text: "delAt key len (JStr s) = Inr None"
  by (cases key) simp_all

lemma modifyAt_text_noop:
  "valueAt path doc = Inr (JStr s) \<Longrightarrow> modifyAt path (delAt key len) doc = Inr None"
proof (induction path arbitrary: doc)
  case Nil
  then show ?case by (simp add: delAt_text)
next
  case (Cons p ps)
  then show ?case
    by (cases "getProp doc p") simp_all
qed

lemma applyPatch_text_del:
  "valueAt path doc = Inr (JStr s) \<Longrightarrow> applyPatch doc (DelPatch (path @ [key]) len) = Inr None"
  by (simp add: applyPatch_def modifyAt_text_noop)

lemma applyPatches_text_del:
  "valueAt path doc = Inr (JStr s)
     \<Longrightarrow> applyPatches doc [DelPatch (path @ [key]) len] = Inr (doc, 0)"
  by (simp add: applyPatch_text_del)

text \<open>One edit and one undo on the document with the text file: the edit is recorded, the
  undo pops it and sets the last known heads, and the document is what it was after the
  edit.\<close>

lemma state_after_edit:
  "externalChange textInsertion (newUndoRedoManager (DocHandle (Some oneFileDoc)))
     = (\<lparr>undoStack = [[''h1'']], redoStack = [], currentHeads = Some [''h2''],
         isUndoingOrRedoing = False\<rparr>,
        DocHandle (Some (oneFileDoc @ [textInsertion])))"
  by (simp add: externalChange_def newUndoRedoManager_def onChange_def getHeads_def
        areHeadsEqual_def oneFileDoc_def textInsertion_def)

lemma state_after_undo:
  "undo textDiff ''h3'' 3
       (externalChange textInsertion (newUndoRedoManager (DocHandle (Some oneFileDoc))))
     = (\<lparr>undoStack = [], redoStack = [[''h2'']], currentHeads = Some [''h1''],
         isUndoingOrRedoing = False\<rparr>,
        DocHandle (Some (oneFileDoc @ [textInsertion])))"
proof -
  have v: "valueAt [PKey ''files'', PKey ''/a.js''] (textDoc ''xy'') = Inr (JStr ''xy'')"
    by (simp add: textDoc_def)
  have p: "applyPatch (textDoc ''xy'') (DelPatch [PKey ''files'', PKey ''/a.js'', PIdx (Suc 0)] None)
             = Inr None"
    using applyPatch_text_del [OF v, of "PIdx (Suc 0)" None] by simp
  have g: "getHeads (oneFileDoc @ [textInsertion]) = [''h2'']"
    by (simp add: getHeads_def oneFileDoc_def textInsertion_def)
  have r: "currentRoot (JObj []) (oneFileDoc @ [textInsertion]) = textDoc ''xy''"
    by (simp add: currentRoot_def oneFileDoc_def textInsertion_def)
  have d: "textDiff (oneFileDoc @ [textInsertion]) [''h2''] [''h1'']
             = [DelPatch [PKey ''files'', PKey ''/a.js'', PIdx (Suc 0)] None]"
    by (simp add: textDiff_def)
  show ?thesis
    unfolding state_after_edit
    by (simp add: undo_def applyHeads_def Let_def g r d p commitChange_def)
qed

text \<open>
  Claim C1 says that after \<open>n\<close> edits observed while idle, \<open>n\<close> calls of \<open>undo()\<close>
  restore the files projection to its state before the first edit. Take the document whose
  only file \<open>/a.js\<close> has the text \<open>x\<close>, a manager constructed on it, and one edit that
  inserts \<open>y\<close> at index 1 of that text. The edit is observed and pushed on the undo stack.
  The diff back to the state before the edit is the deletion of the character at index 1 of
  the text, which \<open>applyPatch\<close> ignores, so after \<open>undo()\<close> the files projection still
  holds \<open>xy\<close> and not \<open>x\<close>.
\<close>

theorem C1_undo_text_insertion:
  "filesProjection (newUndoRedoManager (DocHandle (Some oneFileDoc)))
     = JObj [(''/a.js'', JStr ''x'')]
   \<and> filesProjection
         (externalChange textInsertion (newUndoRedoManager (DocHandle (Some oneFileDoc))))
     = JObj [(''/a.js'', JStr ''xy'')]
   \<and> undoStack (fst (externalChange textInsertion
                        (newUndoRedoManager (DocHandle (Some oneFileDoc))))) = [[''h1'']]
   \<and> filesProjection
         (undo textDiff ''h3'' 3
            (externalChange textInsertion (newUndoRedoManager (DocHandle (Some oneFileDoc)))))
     = JObj [(''/a.js'', JStr ''xy'')]"
proof (intro conjI)
  show "filesProjection (newUndoRedoManager (DocHandle (Some oneFileDoc)))
     = JObj [(''/a.js'', JStr ''x'')]"
    by (simp add: filesProjection_def newUndoRedoManager_def currentRoot_def oneFileDoc_def
          textDoc_def)
  show "filesProjection
         (externalChange textInsertion (newUndoRedoManager (DocHandle (Some oneFileDoc))))
     = JObj [(''/a.js'', JStr ''xy'')]"
    unfolding state_after_edit
    by (simp add: filesProjection_def currentRoot_def oneFileDoc_def textInsertion_def
          textDoc_def)
  show "undoStack (fst (externalChange textInsertion
                        (newUndoRedoManager (DocHandle (Some oneFileDoc))))) = [[''h1'']]"
    unfolding state_after_edit by simp
  show "filesProjection
         (undo textDiff ''h3'' 3
            (externalChange textInsertion (newUndoRedoManager (DocHandle (Some oneFileDoc)))))
     = JObj [(''/a.js'', JStr ''xy'')]"
    unfolding state_after_undo
    by (simp add: filesProjection_def currentRoot_def oneFileDoc_def textInsertion_def
          textDoc_def)
qed

end
